theory Spec2Isabelle
  imports Complex_Main "HOL-Library.Word" "HOL-Library.Monad_Syntax" "HOL-Library.Multiset"
begin

section \<open>Numbers and vectors\<close>

text \<open>
  The C sources compute with \<open>float\<close>; the model computes with \<open>real\<close>, so rounding
  error is outside the model. \<open>int\<close> variables are unbounded integers (no overflow),
  \<open>unsigned int\<close> strand indices are 32-bit words. The cast \<open>(int)x\<close> of a float
  truncates towards zero.
\<close>

type_synonym vec3 = "real \<times> real \<times> real"

definition c_int_of_float :: "real \<Rightarrow> int" where
  "c_int_of_float x = (if 0 \<le> x then \<lfloor>x\<rfloor> else \<lceil>x\<rceil>)"

definition zero_v3 :: vec3 where
  "zero_v3 = (0, 0, 0)"

fun add_v3_v3v3 :: "vec3 \<Rightarrow> vec3 \<Rightarrow> vec3" where
  "add_v3_v3v3 (a0, a1, a2) (b0, b1, b2) = (a0 + b0, a1 + b1, a2 + b2)"

fun sub_v3_v3v3 :: "vec3 \<Rightarrow> vec3 \<Rightarrow> vec3" where
  "sub_v3_v3v3 (a0, a1, a2) (b0, b1, b2) = (a0 - b0, a1 - b1, a2 - b2)"

fun mul_v3_fl :: "vec3 \<Rightarrow> real \<Rightarrow> vec3" where
  "mul_v3_fl (a0, a1, a2) f = (a0 * f, a1 * f, a2 * f)"

fun cross_v3_v3v3 :: "vec3 \<Rightarrow> vec3 \<Rightarrow> vec3" where
  "cross_v3_v3v3 (a0, a1, a2) (b0, b1, b2) =
     (a1 * b2 - a2 * b1, a2 * b0 - a0 * b2, a0 * b1 - a1 * b0)"

section \<open>Hair system data (DNA\_hair\_types.h)\<close>

text \<open>
  Modelled from the spec: the struct declarations live in DNA\_hair\_types.h and
  DNA\_meshdata\_types.h, which are not part of the sources at hand. A \<open>MeshSample\<close> is
  a face index with barycentric-like coordinates; the fields of the other structs are
  the ones hair.c reads and writes. \<open>HAIR_STRAND_INDEX_NONE\<close> is the sentinel
  "no strand" index, the all-ones \<open>unsigned int\<close>.
\<close>

record MeshSample =
  orig_face :: nat
  orig_weights :: vec3

record HairFiberCurve =
  mesh_sample :: MeshSample
  numverts :: int
  vertstart :: int
  taper_length :: real
  taper_thickness :: real

record HairFiberVertex =
  flag :: int
  co :: vec3

type_synonym 'a arr4 = "'a \<times> 'a \<times> 'a \<times> 'a"

record HairFollicle =
  follicle_mesh_sample :: MeshSample
  parent_index :: "32 word arr4"
  parent_weight :: "real arr4"

definition HAIR_STRAND_INDEX_NONE :: "32 word" where
  "HAIR_STRAND_INDEX_NONE = 0xFFFFFFFF"

record HairPattern =
  follicles :: "HairFollicle list option"
  num_follicles :: int

record HairCurveData =
  curves :: "HairFiberCurve list"
  totcurves :: int
  verts :: "HairFiberVertex list"
  totverts :: int

datatype HairSystemFlag = HAIR_SYSTEM_UPDATE_FOLLICLE_BINDING

record HairSystem =
  hsys_flag :: "HairSystemFlag set"
  pattern :: "HairPattern option"
  curve_data :: HairCurveData

text \<open>Reading and writing slot \<open>k\<close> of a four-element C array.\<close>

fun get4 :: "'a arr4 \<Rightarrow> nat \<Rightarrow> 'a" where
  "get4 (a0, a1, a2, a3) k = (if k = 0 then a0 else if k = 1 then a1 else if k = 2 then a2 else a3)"

fun set4 :: "'a arr4 \<Rightarrow> nat \<Rightarrow> 'a \<Rightarrow> 'a arr4" where
  "set4 (a0, a1, a2, a3) k v =
     (if k = 0 then (v, a1, a2, a3) else if k = 1 then (a0, v, a2, a3)
      else if k = 2 then (a0, a1, v, a3) else (a0, a1, a2, v))"

section \<open>Guide curve setters\<close>

text \<open>
  A setter either fails its \<open>BLI_assert\<close>, or passes it and writes outside the array
  (undefined behaviour in C), or stores the element. The third fault, a pointer to no
  object, belongs to the geometry containers below. The batch cache that the setters
  mark dirty belongs to the draw code and is not modelled.
\<close>

datatype fault = AssertionFailed | OutOfBounds | InvalidPointer

definition BKE_hair_set_fiber_curve ::
  "HairSystem \<Rightarrow> int \<Rightarrow> MeshSample \<Rightarrow> int \<Rightarrow> real \<Rightarrow> real \<Rightarrow> fault + HairSystem" where
  "BKE_hair_set_fiber_curve hsys index sample nv tlen tthick =
     (let cd = curve_data hsys in
      if \<not> index \<le> totcurves cd then Inl AssertionFailed
      else if index < 0 \<or> int (length (curves cd)) \<le> index then Inl OutOfBounds
      else
        let curve = (curves cd ! nat index)
              \<lparr>mesh_sample := sample, numverts := nv, taper_length := tlen, taper_thickness := tthick\<rparr>
        in Inr (hsys\<lparr>curve_data := cd\<lparr>curves := (curves cd)[nat index := curve]\<rparr>,
                      hsys_flag := insert HAIR_SYSTEM_UPDATE_FOLLICLE_BINDING (hsys_flag hsys)\<rparr>))"

definition BKE_hair_set_fiber_vertex ::
  "HairSystem \<Rightarrow> int \<Rightarrow> int \<Rightarrow> vec3 \<Rightarrow> fault + HairSystem" where
  "BKE_hair_set_fiber_vertex hsys index fl c =
     (let cd = curve_data hsys in
      if \<not> index \<le> totverts cd then Inl AssertionFailed
      else if index < 0 \<or> int (length (verts cd)) \<le> index then Inl OutOfBounds
      else
        let vertex = (verts cd ! nat index)\<lparr>flag := fl, co := c\<rparr>
        in Inr (hsys\<lparr>curve_data := cd\<lparr>verts := (verts cd)[nat index := vertex]\<rparr>\<rparr>))"

section \<open>Curve subdivision\<close>

text \<open>
  \<open>hair_get_strand_subdiv_length\<close> is the number of vertices of a curve after
  subdivision, \<open>((orig_length - 1) << subdiv) + 1\<close>. The subdivision level is a
  natural number in the model.
\<close>

definition hair_get_strand_subdiv_length :: "int \<Rightarrow> nat \<Rightarrow> int" where
  "hair_get_strand_subdiv_length orig_length subdiv = (orig_length - 1) * 2 ^ subdiv + 1"

definition hair_get_strand_subdiv_numverts :: "int \<Rightarrow> int \<Rightarrow> nat \<Rightarrow> int" where
  "hair_get_strand_subdiv_numverts numstrands nv subdiv = (nv - numstrands) * 2 ^ subdiv + numstrands"

text \<open>
  \<open>hair_curve_subdivide\<close> writes the \<open>co\<close> of the vertices of \<open>r_verts\<close>, the part of
  the destination buffer that starts at the curve's first vertex; \<open>verts_orig\<close> is the
  part of the dense source array that starts at the curve's first control point. The
  first loop places control point \<open>i\<close>, moved by the root offset, at index
  \<open>i * step\<close> (\<open>subdivide_init\<close>); then one pass per level (\<open>subdivide_level\<close>) computes
  the edge midpoints and moves the points between them. The result is \<open>None\<close> where
  the C code fails its assertion (\<open>numverts > 0\<close>) or would leave the two arrays.
\<close>

definition set_co :: "HairFiberVertex list \<Rightarrow> nat \<Rightarrow> vec3 \<Rightarrow> HairFiberVertex list" where
  "set_co r i c = r[i := (r ! i)\<lparr>co := c\<rparr>]"

definition subdivide_init ::
  "nat \<Rightarrow> HairFiberVertex list \<Rightarrow> nat \<Rightarrow> vec3 \<Rightarrow> HairFiberVertex list \<Rightarrow> HairFiberVertex list" where
  "subdivide_init n verts_orig subdiv rootpos r_verts =
     (let step = 2 ^ subdiv;
          offset = sub_v3_v3v3 rootpos (co (verts_orig ! 0))
      in fold (\<lambda>i r. set_co r (i * step) (add_v3_v3v3 (co (verts_orig ! i)) offset)) [0..<n] r_verts)"

definition subdivide_level :: "nat \<Rightarrow> nat \<Rightarrow> nat \<Rightarrow> HairFiberVertex list \<Rightarrow> HairFiberVertex list" where
  "subdivide_level n subdiv d r_verts =
     (let num_edges = (n - 1) * 2 ^ d;
          hstep = 2 ^ (subdiv - d - 1);
          step = 2 ^ (subdiv - d);
          r1 = fold (\<lambda>k r. set_co r (k * step + hstep)
                 (mul_v3_fl (add_v3_v3v3 (co (r ! (k * step))) (co (r ! (k * step + step)))) (1 / 2)))
                 [0..<num_edges] r_verts
      in fold (\<lambda>k r. set_co r (k * step)
                 (mul_v3_fl (add_v3_v3v3 (co (r ! (k * step - hstep))) (co (r ! (k * step + hstep)))) (1 / 2)))
                 [1..<num_edges] r1)"

definition hair_curve_subdivide ::
  "HairFiberCurve \<Rightarrow> HairFiberVertex list \<Rightarrow> nat \<Rightarrow> vec3 \<Rightarrow> HairFiberVertex list
     \<Rightarrow> (int \<times> HairFiberVertex list) option" where
  "hair_curve_subdivide curve verts_orig subdiv rootpos r_verts =
     (let n = numverts curve;
          num_verts = (n - 1) * 2 ^ subdiv + 1
      in if n \<le> 0 \<or> int (length verts_orig) < n \<or> int (length r_verts) < num_verts then None
         else Some (num_verts,
                fold (subdivide_level (nat n) subdiv) [0..<subdiv]
                  (subdivide_init (nat n) verts_orig subdiv rootpos r_verts)))"




section \<open>Strand binding\<close>

text \<open>
  The services hair.c calls but does not define are parameters of the model, collected
  in one record: the surface sample evaluator (it returns its success flag with the
  location, normal and tangent it wrote), the k-d tree query (the tree is built from the
  strand locations; the query returns the indices of the nearest strands, nearest
  first), the triangle and line helpers of BLI\_math, and the vector helpers of the
  frame transport.
\<close>

record 'mesh hair_ext =
  BKE_mesh_sample_eval :: "'mesh \<Rightarrow> MeshSample \<Rightarrow> bool \<times> vec3 \<times> vec3 \<times> vec3"
  BLI_kdtree_find_nearest_n :: "vec3 list \<Rightarrow> vec3 \<Rightarrow> nat \<Rightarrow> nat list"
  closest_on_tri_to_point_v3 :: "vec3 \<Rightarrow> vec3 \<Rightarrow> vec3 \<Rightarrow> vec3 \<Rightarrow> vec3"
  interp_weights_tri_v3 :: "vec3 \<Rightarrow> vec3 \<Rightarrow> vec3 \<Rightarrow> vec3 \<Rightarrow> vec3"
  line_point_factor_v3 :: "vec3 \<Rightarrow> vec3 \<Rightarrow> vec3 \<Rightarrow> real"
  normalize_v3 :: "vec3 \<Rightarrow> vec3"
  rotation_between_vecs_to_mat3 :: "vec3 \<Rightarrow> vec3 \<Rightarrow> vec3 \<times> vec3 \<times> vec3"
  mul_v3_m3v3 :: "vec3 \<times> vec3 \<times> vec3 \<Rightarrow> vec3 \<Rightarrow> vec3"

text \<open>The macro \<open>CLAMP(a, b, c)\<close> of BLI\_utildefines.h.\<close>

definition CLAMP :: "real \<Rightarrow> real \<Rightarrow> real \<Rightarrow> real" where
  "CLAMP a b c = (if a < b then b else if a > c then c else a)"

definition swap4 :: "'a arr4 \<Rightarrow> nat \<Rightarrow> nat \<Rightarrow> 'a arr4" where
  "swap4 arr a b = set4 (set4 arr a (get4 arr b)) b (get4 arr a)"

definition FIBERSWAP :: "HairFollicle \<Rightarrow> nat \<Rightarrow> nat \<Rightarrow> HairFollicle" where
  "FIBERSWAP follicle a b =
     follicle\<lparr>parent_index := swap4 (parent_index follicle) a b,
              parent_weight := swap4 (parent_weight follicle) a b\<rparr>"

text \<open>The inner loop of the sort: the index of the first largest weight in slots \<open>k..3\<close>.\<close>

definition sort_maxi :: "real arr4 \<Rightarrow> nat \<Rightarrow> nat" where
  "sort_maxi w k =
     fst (fold (\<lambda>i (maxi, maxw). if get4 w i > maxw then (i, get4 w i) else (maxi, maxw))
            [k + 1..<4] (k, get4 w k))"

text \<open>The body of the outer loop, and the sort: three passes of a selection sort.\<close>

definition sort_pass :: "nat \<Rightarrow> HairFollicle \<Rightarrow> HairFollicle" where
  "sort_pass k follicle =
     (let maxi = sort_maxi (parent_weight follicle) k
      in if maxi \<noteq> k then FIBERSWAP follicle k maxi else follicle)"

definition hair_fiber_sort_weights :: "HairFollicle \<Rightarrow> HairFollicle" where
  "hair_fiber_sort_weights follicle = fold sort_pass [0..<3] follicle"

text \<open>The debug assertions of \<open>hair_fiber_verify_weights\<close>, as a predicate.\<close>

definition hair_fiber_verify_weights :: "HairFollicle \<Rightarrow> bool" where
  "hair_fiber_verify_weights follicle =
     (case parent_weight follicle of (w0, w1, w2, w3) \<Rightarrow>
        (w0 \<ge> 0 \<and> w1 \<ge> 0 \<and> w2 \<ge> 0 \<and> w3 \<ge> 0)
        \<and> (let sum = w0 + w1 + w2 + w3; epsilon = 1 / 100
           in sum > 1 - epsilon \<and> sum < 1 + epsilon)
        \<and> (w0 \<ge> w1 \<and> w1 \<ge> w2 \<and> w2 \<ge> w3))"

text \<open>
  \<open>hair_fiber_find_closest_strand\<close> up to its last statement (\<open>closest_strand_weights\<close>),
  and the whole function, which ends with the sort. The array \<open>nearest\<close> has three
  elements, the number the query is asked for.
\<close>

definition closest_strand_weights ::
  "'mesh hair_ext \<Rightarrow> HairFollicle \<Rightarrow> vec3 \<Rightarrow> vec3 list \<Rightarrow> HairFollicle" where
  "closest_strand_weights ext follicle loc strandloc =
     (let nearest = take 3 (BLI_kdtree_find_nearest_n ext strandloc loc 3);
          found = length nearest;
          sloc = (\<lambda>k. strandloc ! (nearest ! k));
          f1 = fold (\<lambda>k f. f\<lparr>parent_index := set4 (parent_index f) k (of_nat (nearest ! k))\<rparr>)
                 [0..<found] follicle;
          f2 = fold (\<lambda>k f. f\<lparr>parent_index := set4 (parent_index f) k HAIR_STRAND_INDEX_NONE,
                              parent_weight := set4 (parent_weight f) k 0\<rparr>)
                 [found..<4] f1;
          f3 = (if found = 3 then
                  (let closest = closest_on_tri_to_point_v3 ext loc (sloc 0) (sloc 1) (sloc 2)
                   in case interp_weights_tri_v3 ext (sloc 0) (sloc 1) (sloc 2) closest of
                        (w0, w1, w2) \<Rightarrow>
                          f2\<lparr>parent_weight :=
                               (CLAMP w0 0 1, CLAMP w1 0 1, CLAMP w2 0 1, get4 (parent_weight f2) 3)\<rparr>)
                else if found = 2 then
                  (let w1 = line_point_factor_v3 ext loc (sloc 0) (sloc 1);
                       w0 = 1 - w1
                   in f2\<lparr>parent_weight :=
                           (CLAMP w0 0 1, CLAMP w1 0 1,
                            get4 (parent_weight f2) 2, get4 (parent_weight f2) 3)\<rparr>)
                else if found = 1 then
                  f2\<lparr>parent_weight := set4 (parent_weight f2) 0 1\<rparr>
                else f2)
      in f3)"

definition hair_fiber_find_closest_strand ::
  "'mesh hair_ext \<Rightarrow> HairFollicle \<Rightarrow> vec3 \<Rightarrow> vec3 list \<Rightarrow> HairFollicle" where
  "hair_fiber_find_closest_strand ext follicle loc strandloc =
     hair_fiber_sort_weights (closest_strand_weights ext follicle loc strandloc)"

text \<open>
  \<open>map_first n f xs\<close> is a loop over the first \<open>n\<close> elements of an array that
  rewrites each element in place.
\<close>

definition map_first :: "nat \<Rightarrow> ('a \<Rightarrow> 'a) \<Rightarrow> 'a list \<Rightarrow> 'a list" where
  "map_first n f xs = map f (take n xs) @ drop n xs"

definition clear_binding :: "HairFollicle \<Rightarrow> HairFollicle" where
  "clear_binding follicle =
     fold (\<lambda>k f. f\<lparr>parent_index := set4 (parent_index f) k HAIR_STRAND_INDEX_NONE,
                     parent_weight := set4 (parent_weight f) k 0\<rparr>)
       [0..<4] follicle"

definition eval_strandloc :: "'mesh hair_ext \<Rightarrow> 'mesh \<Rightarrow> HairFiberCurve \<Rightarrow> vec3" where
  "eval_strandloc ext scalp curve =
     (case BKE_mesh_sample_eval ext scalp (mesh_sample curve) of
        (ok, loc, nor, tang) \<Rightarrow> if \<not> ok then zero_v3 else loc)"

definition bind_follicle :: "'mesh hair_ext \<Rightarrow> 'mesh \<Rightarrow> vec3 list \<Rightarrow> HairFollicle \<Rightarrow> HairFollicle" where
  "bind_follicle ext scalp strandloc follicle =
     (case BKE_mesh_sample_eval ext scalp (follicle_mesh_sample follicle) of
        (ok, loc, nor, tang) \<Rightarrow>
          if ok then hair_fiber_find_closest_strand ext follicle loc strandloc else follicle)"

text \<open>
  \<open>BKE_hair_bind_follicles\<close> returns its result with the hair system it leaves behind.
  The follicle array of a pattern is a pointer that may be null; a loop over a null
  array with \<open>num_follicles = 0\<close> does nothing.
\<close>

definition BKE_hair_bind_follicles ::
  "'mesh hair_ext \<Rightarrow> HairSystem \<Rightarrow> 'mesh \<Rightarrow> bool \<times> HairSystem" where
  "BKE_hair_bind_follicles ext hsys scalp =
     (if HAIR_SYSTEM_UPDATE_FOLLICLE_BINDING \<notin> hsys_flag hsys then (True, hsys)
      else
        let hsys1 = hsys\<lparr>hsys_flag := hsys_flag hsys - {HAIR_SYSTEM_UPDATE_FOLLICLE_BINDING}\<rparr>
        in case pattern hsys1 of
             None \<Rightarrow> (True, hsys1)
           | Some pat \<Rightarrow>
               let num_strands = totcurves (curve_data hsys1)
               in if num_strands = 0 then
                    (False,
                     hsys1\<lparr>pattern := Some (pat\<lparr>follicles :=
                        map_option (map_first (nat (num_follicles pat)) clear_binding) (follicles pat)\<rparr>)\<rparr>)
                  else
                    let strandloc = map (eval_strandloc ext scalp)
                                      (take (nat num_strands) (curves (curve_data hsys1)))
                    in (True,
                        hsys1\<lparr>pattern := Some (pat\<lparr>follicles :=
                           map_option (map_first (nat (num_follicles pat)) (bind_follicle ext scalp strandloc))
                             (follicles pat)\<rparr>)\<rparr>))"

text \<open>
  The four \<open>(parent_index, parent_weight)\<close> slots of a follicle as a list of pairs,
  and the sum of the four weights.
\<close>

definition slots :: "HairFollicle \<Rightarrow> (32 word \<times> real) list" where
  "slots follicle = map (\<lambda>k. (get4 (parent_index follicle) k, get4 (parent_weight follicle) k)) [0..<4]"

definition weight_sum :: "HairFollicle \<Rightarrow> real" where
  "weight_sum follicle = (case parent_weight follicle of (w0, w1, w2, w3) \<Rightarrow> w0 + w1 + w2 + w3)"

definition weights_sorted :: "HairFollicle \<Rightarrow> bool" where
  "weights_sorted follicle =
     (case parent_weight follicle of (w0, w1, w2, w3) \<Rightarrow> w0 \<ge> w1 \<and> w1 \<ge> w2 \<and> w2 \<ge> w3)"

text \<open>\<open>BKE_hair_clear_fiber_curves\<close> removes the guide curves and clears the update flag.\<close>

definition BKE_hair_clear_fiber_curves :: "HairSystem \<Rightarrow> HairSystem" where
  "BKE_hair_clear_fiber_curves hsys =
     hsys\<lparr>curve_data := (curve_data hsys)\<lparr>curves := [], totcurves := 0, verts := [], totverts := 0\<rparr>,
          hsys_flag := hsys_flag hsys - {HAIR_SYSTEM_UPDATE_FOLLICLE_BINDING}\<rparr>"

text \<open>
  What the theorems below assume of the services. The k-d tree query returns
  \<open>min n N\<close> indices of the \<open>N\<close> points of the tree. A triple of weights is
  barycentric within \<open>e\<close> when each weight is at least \<open>- e\<close> and the sum is
  within \<open>e\<close> of one; \<open>e = 0\<close> is exact arithmetic.
\<close>

definition kdtree_contract :: "'mesh hair_ext \<Rightarrow> bool" where
  "kdtree_contract ext =
     (\<forall>pts loc n. length (BLI_kdtree_find_nearest_n ext pts loc n) = min n (length pts)
        \<and> (\<forall>i \<in> set (BLI_kdtree_find_nearest_n ext pts loc n). i < length pts))"

definition barycentric_within :: "vec3 \<Rightarrow> real \<Rightarrow> bool" where
  "barycentric_within w e =
     (case w of (w0, w1, w2) \<Rightarrow> - e \<le> w0 \<and> - e \<le> w1 \<and> - e \<le> w2 \<and> \<bar>w0 + w1 + w2 - 1\<bar> \<le> e)"

text \<open>
  Names for what one bind computes: the locations of the guide strands, the result of
  evaluating the surface sample of a follicle (the success flag and the location), and
  the weights that \<open>hair_fiber_find_closest_strand\<close> receives from the one call of the
  triangle interpolation it makes when the query finds three strands.
\<close>

definition strand_locations :: "'mesh hair_ext \<Rightarrow> HairSystem \<Rightarrow> 'mesh \<Rightarrow> vec3 list" where
  "strand_locations ext hsys scalp =
     map (eval_strandloc ext scalp) (take (nat (totcurves (curve_data hsys))) (curves (curve_data hsys)))"

definition follicle_location :: "'mesh hair_ext \<Rightarrow> 'mesh \<Rightarrow> HairFollicle \<Rightarrow> bool \<times> vec3" where
  "follicle_location ext scalp follicle =
     (case BKE_mesh_sample_eval ext scalp (follicle_mesh_sample follicle) of
        (ok, loc, nor, tang) \<Rightarrow> (ok, loc))"

definition closest_triangle_weights :: "'mesh hair_ext \<Rightarrow> vec3 \<Rightarrow> vec3 list \<Rightarrow> vec3" where
  "closest_triangle_weights ext loc strandloc =
     (let nearest = take 3 (BLI_kdtree_find_nearest_n ext strandloc loc 3);
          sloc = (\<lambda>k. strandloc ! (nearest ! k))
      in interp_weights_tri_v3 ext (sloc 0) (sloc 1) (sloc 2)
           (closest_on_tri_to_point_v3 ext loc (sloc 0) (sloc 1) (sloc 2)))"

text \<open>
  The slot invariant of the specification: a slot holds the sentinel index if and only
  if its weight is zero.
\<close>

definition sentinel_iff_zero_weight :: "HairFollicle \<Rightarrow> bool" where
  "sentinel_iff_zero_weight follicle =
     list_all (\<lambda>(ix, w). ix = HAIR_STRAND_INDEX_NONE \<longleftrightarrow> w = 0) (slots follicle)"

definition sentinel_has_zero_weight :: "HairFollicle \<Rightarrow> bool" where
  "sentinel_has_zero_weight follicle =
     list_all (\<lambda>(ix, w). ix = HAIR_STRAND_INDEX_NONE \<longrightarrow> w = 0) (slots follicle)"

definition unbound :: "HairFollicle \<Rightarrow> bool" where
  "unbound follicle =
     list_all (\<lambda>(ix, w). ix = HAIR_STRAND_INDEX_NONE \<and> w = 0) (slots follicle)"

section \<open>A concrete instance of the services\<close>

text \<open>
  For evaluating the model on concrete inputs; the instance computes in exact
  arithmetic. The scalp is one triangle with its corners at the unit vectors, so a
  surface sample with weights \<open>(a, b, c)\<close> on face 0 lies at the point \<open>(a, b, c)\<close>,
  and a sample on any other face fails to evaluate. The point query returns the first
  \<open>n\<close> points, which are the nearest ones, nearest first, for the inputs used below.
  \<open>line_point_factor_v3\<close> is the projection factor of BLI\_math (zero for a degenerate
  segment). The closest point of a triangle is the query point itself, which is right
  for the points of the triangle; the triangle weights are the barycentric coordinates
  of the point in the plane of the triangle (one third each for a degenerate triangle).
  The frame helpers are trivial.
\<close>

fun example_diff :: "vec3 \<Rightarrow> vec3 \<Rightarrow> vec3" where
  "example_diff (a0, a1, a2) (b0, b1, b2) = (a0 - b0, a1 - b1, a2 - b2)"

fun dot_v3v3 :: "vec3 \<Rightarrow> vec3 \<Rightarrow> real" where
  "dot_v3v3 (a0, a1, a2) (b0, b1, b2) = a0 * b0 + a1 * b1 + a2 * b2"

definition example_line_point_factor :: "vec3 \<Rightarrow> vec3 \<Rightarrow> vec3 \<Rightarrow> real" where
  "example_line_point_factor p l1 l2 =
     (let u = example_diff l2 l1; h = example_diff p l1; d = dot_v3v3 u u
      in if d > 0 then dot_v3v3 u h / d else 0)"

definition example_interp_weights :: "vec3 \<Rightarrow> vec3 \<Rightarrow> vec3 \<Rightarrow> vec3 \<Rightarrow> vec3" where
  "example_interp_weights v1 v2 v3 p =
     (let a = example_diff v2 v1; b = example_diff v3 v1; h = example_diff p v1;
          daa = dot_v3v3 a a; dab = dot_v3v3 a b; dbb = dot_v3v3 b b;
          dha = dot_v3v3 h a; dhb = dot_v3v3 h b;
          denom = daa * dbb - dab * dab
      in if denom = 0 then (1 / 3, 1 / 3, 1 / 3)
         else
           let w2 = (dbb * dha - dab * dhb) / denom;
               w3 = (daa * dhb - dab * dha) / denom
           in (1 - w2 - w3, w2, w3))"

definition example_ext :: "unit hair_ext" where
  "example_ext =
     \<lparr>BKE_mesh_sample_eval = (\<lambda>scalp s. (orig_face s = 0, orig_weights s, (0, 0, 1), (1, 0, 0))),
      BLI_kdtree_find_nearest_n = (\<lambda>pts loc n. take n [0..<length pts]),
      closest_on_tri_to_point_v3 = (\<lambda>p v1 v2 v3. p),
      interp_weights_tri_v3 = example_interp_weights,
      line_point_factor_v3 = example_line_point_factor,
      normalize_v3 = (\<lambda>v. v),
      rotation_between_vecs_to_mat3 = (\<lambda>a b. ((1, 0, 0), (0, 1, 0), (0, 0, 1))),
      mul_v3_m3v3 = (\<lambda>m v. v)\<rparr>"

text \<open>
  Inputs for the instance: guide curves of two control points rooted at a corner of the
  scalp triangle, follicles at a point of the triangle, and a follicle whose sample names
  a face the scalp does not have.
\<close>

definition example_curve :: "vec3 \<Rightarrow> HairFiberCurve" where
  "example_curve w =
     \<lparr>mesh_sample = \<lparr>orig_face = 0, orig_weights = w\<rparr>, numverts = 2, vertstart = 0,
      taper_length = 0, taper_thickness = 0\<rparr>"

definition example_follicle :: "nat \<Rightarrow> vec3 \<Rightarrow> HairFollicle" where
  "example_follicle face w =
     \<lparr>follicle_mesh_sample = \<lparr>orig_face = face, orig_weights = w\<rparr>,
      parent_index = (0, 0, 0, 0), parent_weight = (0, 0, 0, 0)\<rparr>"

definition example_hsys :: "HairFiberCurve list \<Rightarrow> HairFollicle list \<Rightarrow> HairSystem" where
  "example_hsys cs fs =
     \<lparr>hsys_flag = {HAIR_SYSTEM_UPDATE_FOLLICLE_BINDING},
      pattern = Some \<lparr>follicles = Some fs, num_follicles = int (length fs)\<rparr>,
      curve_data = \<lparr>curves = cs, totcurves = int (length cs), verts = [], totverts = 0\<rparr>\<rparr>"

section \<open>Frame transport\<close>

text \<open>
  \<open>hair_curve_transport_frame\<close> returns the tangent and normal it writes, which are
  also the new \<open>prev_tang\<close> and \<open>prev_nor\<close>. \<open>hair_curve_calc_vectors\<close> walks the
  segments of a curve: the first and the last vertex use the adjacent segment, an inner
  vertex the segment between its neighbours. A root matrix is the triple of its rows.
  The result is \<open>None\<close> where the assertion \<open>numverts >= 2\<close> fails or the vertices do
  not hold the curve.
\<close>

definition hair_curve_transport_frame ::
  "'mesh hair_ext \<Rightarrow> vec3 \<Rightarrow> vec3 \<Rightarrow> vec3 \<Rightarrow> vec3 \<Rightarrow> vec3 \<times> vec3" where
  "hair_curve_transport_frame ext co1 co2 prev_tang prev_nor =
     (let r_tang = normalize_v3 ext (sub_v3_v3v3 co2 co1);
          rot = rotation_between_vecs_to_mat3 ext prev_tang r_tang;
          r_nor = mul_v3_m3v3 ext rot prev_nor
      in (r_tang, r_nor))"

fun transport_frames ::
  "'mesh hair_ext \<Rightarrow> (vec3 \<times> vec3) list \<Rightarrow> vec3 \<Rightarrow> vec3 \<Rightarrow> (vec3 \<times> vec3) list" where
  "transport_frames ext [] prev_tang prev_nor = []"
| "transport_frames ext ((co1, co2) # rest) prev_tang prev_nor =
     (case hair_curve_transport_frame ext co1 co2 prev_tang prev_nor of
        (r_tang, r_nor) \<Rightarrow> (r_tang, r_nor) # transport_frames ext rest r_tang r_nor)"

definition hair_curve_calc_vectors ::
  "'mesh hair_ext \<Rightarrow> HairFiberVertex list \<Rightarrow> int \<Rightarrow> vec3 \<times> vec3 \<times> vec3
     \<Rightarrow> (vec3 list \<times> vec3 list) option" where
  "hair_curve_calc_vectors ext vs nv rootmat =
     (if nv < 2 \<or> int (length vs) < nv then None
      else
        let n = nat nv;
            segments = (co (vs ! 0), co (vs ! 1))
                       # map (\<lambda>i. (co (vs ! (i - 1)), co (vs ! (i + 1)))) [1..<n - 1]
                       @ [(co (vs ! (n - 2)), co (vs ! (n - 1)))];
            frames = (case rootmat of (m0, m1, m2) \<Rightarrow> transport_frames ext segments m2 m0)
        in Some (map fst frames, map snd frames))"

section \<open>Export cache\<close>

text \<open>
  A buffer pointer of the cache is null, points to an allocated array, or dangles: it
  still holds the address of an array that was freed. The five data categories are the
  flags \<open>HAIR_EXPORT_...\<close> of BKE\_hair.h, which is not part of the sources at hand;
  a set of categories stands for the bit mask. The pointer \<open>follicles\<close> of the cache is
  borrowed from the pattern; the model stores the array it points to.
\<close>

datatype 'a buffer = Null | Alloc 'a | Dangling

datatype HairExportFlag =
    HAIR_EXPORT_FIBER_ROOT_POSITIONS
  | HAIR_EXPORT_FIBER_VERTEX_COUNTS
  | HAIR_EXPORT_FOLLICLE_BINDING
  | HAIR_EXPORT_FIBER_CURVES
  | HAIR_EXPORT_FIBER_VERTICES

definition HAIR_EXPORT_ALL :: "HairExportFlag set" where
  "HAIR_EXPORT_ALL =
     {HAIR_EXPORT_FIBER_ROOT_POSITIONS, HAIR_EXPORT_FIBER_VERTEX_COUNTS, HAIR_EXPORT_FOLLICLE_BINDING,
      HAIR_EXPORT_FIBER_CURVES, HAIR_EXPORT_FIBER_VERTICES}"

record HairExportCache =
  fiber_curves :: "HairFiberCurve list buffer"
  fiber_verts :: "HairFiberVertex list buffer"
  fiber_tangents :: "vec3 list buffer"
  fiber_normals :: "vec3 list buffer"
  cache_follicles :: "HairFollicle list buffer"
  fiber_root_position :: "vec3 list buffer"
  fiber_numverts :: "int list buffer"
  cache_totcurves :: int
  cache_totverts :: int
  totfibercurves :: int
  totfiberverts :: int

definition BKE_hair_export_cache_new :: HairExportCache where
  "BKE_hair_export_cache_new =
     \<lparr>fiber_curves = Null, fiber_verts = Null, fiber_tangents = Null, fiber_normals = Null,
      cache_follicles = Null, fiber_root_position = Null, fiber_numverts = Null,
      cache_totcurves = 0, cache_totverts = 0, totfibercurves = 0, totfiberverts = 0\<rparr>"

definition hair_export_cache_get_required_updates :: "HairExportCache \<Rightarrow> HairExportFlag set" where
  "hair_export_cache_get_required_updates cache =
     (if fiber_curves cache = Null then {HAIR_EXPORT_FIBER_CURVES} else {})
     \<union> (if fiber_verts cache = Null \<or> fiber_normals cache = Null \<or> fiber_tangents cache = Null
        then {HAIR_EXPORT_FIBER_VERTICES} else {})
     \<union> (if cache_follicles cache = Null then {HAIR_EXPORT_FOLLICLE_BINDING} else {})
     \<union> (if fiber_root_position cache = Null then {HAIR_EXPORT_FIBER_ROOT_POSITIONS} else {})
     \<union> (if fiber_numverts cache = Null then {HAIR_EXPORT_FIBER_VERTEX_COUNTS} else {})"

definition hair_export_cache_get_dependencies :: "HairExportFlag set \<Rightarrow> HairExportFlag set" where
  "hair_export_cache_get_dependencies data =
     (let data1 = (if HAIR_EXPORT_FIBER_CURVES \<in> data
                   then data \<union> {HAIR_EXPORT_FIBER_VERTICES, HAIR_EXPORT_FOLLICLE_BINDING} else data)
      in if HAIR_EXPORT_FOLLICLE_BINDING \<in> data1
         then data1 \<union> {HAIR_EXPORT_FIBER_ROOT_POSITIONS, HAIR_EXPORT_FIBER_VERTEX_COUNTS} else data1)"

text \<open>
  The blocks of \<open>BKE_hair_export_cache_update\<close>, one per data category. A block has
  no result (\<open>None\<close>) where the C code has undefined behaviour: it reallocates or frees
  a dangling pointer, reads an array outside its bounds or through a null pointer, or
  fails an assertion. The arrays a block allocates hold what the block writes.
\<close>

fun subdivided_curves :: "HairFiberCurve list \<Rightarrow> nat \<Rightarrow> int \<Rightarrow> HairFiberCurve list \<times> int" where
  "subdivided_curves [] subdiv totv = ([], totv)"
| "subdivided_curves (curve_orig # rest) subdiv totv =
     (let curve = curve_orig\<lparr>numverts := hair_get_strand_subdiv_length (numverts curve_orig) subdiv,
                             vertstart := totv\<rparr>
      in case subdivided_curves rest subdiv (totv + numverts curve) of
           (cs, t) \<Rightarrow> (curve # cs, t))"

definition update_fiber_curves :: "HairSystem \<Rightarrow> nat \<Rightarrow> HairExportCache \<Rightarrow> HairExportCache option" where
  "update_fiber_curves hsys subdiv cache =
     (let totc = totcurves (curve_data hsys)
      in if fiber_curves cache = Dangling \<or> int (length (curves (curve_data hsys))) < totc then None
         else case subdivided_curves (take (nat totc) (curves (curve_data hsys))) subdiv 0 of
                (cs, totv) \<Rightarrow>
                  Some (cache\<lparr>cache_totcurves := totc, fiber_curves := Alloc cs, cache_totverts := totv\<rparr>))"

definition nth_opt :: "'a list \<Rightarrow> nat \<Rightarrow> 'a option" where
  "nth_opt xs i = (if i < length xs then Some (xs ! i) else None)"

definition buffer_array :: "'a list buffer \<Rightarrow> 'a list option" where
  "buffer_array b = (case b of Alloc xs \<Rightarrow> Some xs | _ \<Rightarrow> None)"

text \<open>
  The vertices, tangents and normals of cached curve \<open>i\<close>. The destination of the
  subdivision is the part of the vertex buffer that the cached curve reserves,
  \<open>numverts\<close> vertices from \<open>vertstart\<close> on.
\<close>

definition update_curve_vertices ::
  "'mesh hair_ext \<Rightarrow> HairSystem \<Rightarrow> nat \<Rightarrow> 'mesh \<Rightarrow> HairExportCache \<Rightarrow> nat
     \<Rightarrow> (HairFiberVertex list \<times> vec3 list \<times> vec3 list) option" where
  "update_curve_vertices ext hsys subdiv scalp cache i =
     do {
       curve_orig \<leftarrow> nth_opt (curves (curve_data hsys)) i;
       cs \<leftarrow> buffer_array (fiber_curves cache);
       curve \<leftarrow> nth_opt cs i;
       (if vertstart curve_orig < 0 \<or> numverts curve < 0 then None
        else
          case BKE_mesh_sample_eval ext scalp (mesh_sample curve) of
            (ok, rootpos, nor, tang) \<Rightarrow>
              do {
                (nv, vs) \<leftarrow> hair_curve_subdivide curve_orig
                               (drop (nat (vertstart curve_orig)) (verts (curve_data hsys)))
                               subdiv rootpos
                               (replicate (nat (numverts curve)) \<lparr>flag = 0, co = zero_v3\<rparr>);
                (tangents, normals) \<leftarrow> hair_curve_calc_vectors ext vs (numverts curve)
                                           (tang, cross_v3_v3v3 nor tang, nor);
                Some (vs, tangents, normals)
              })
     }"

definition update_fiber_vertices ::
  "'mesh hair_ext \<Rightarrow> HairSystem \<Rightarrow> nat \<Rightarrow> 'mesh \<Rightarrow> HairExportCache \<Rightarrow> HairExportCache option" where
  "update_fiber_vertices ext hsys subdiv scalp cache =
     (if fiber_verts cache = Dangling \<or> fiber_tangents cache = Dangling \<or> fiber_normals cache = Dangling
      then None
      else
        do {
          parts \<leftarrow> those (map (update_curve_vertices ext hsys subdiv scalp cache)
                             [0..<nat (cache_totcurves cache)]);
          Some (cache\<lparr>fiber_verts := Alloc (concat (map fst parts)),
                      fiber_tangents := Alloc (concat (map (\<lambda>p. fst (snd p)) parts)),
                      fiber_normals := Alloc (concat (map (\<lambda>p. snd (snd p)) parts))\<rparr>)
        })"

definition update_follicle_binding :: "HairPattern \<Rightarrow> HairExportCache \<Rightarrow> HairExportCache" where
  "update_follicle_binding pat cache =
     cache\<lparr>cache_follicles := (case follicles pat of None \<Rightarrow> Null | Some fs \<Rightarrow> Alloc fs),
           totfibercurves := num_follicles pat\<rparr>"

text \<open>
  The length of one fiber: the loop over the four parent slots, which stops at the first
  slot with the sentinel index or weight zero. The index \<open>si\<close> is the parent index
  read as an \<open>int\<close>.
\<close>

fun fiber_length ::
  "HairFiberCurve list buffer \<Rightarrow> int \<Rightarrow> HairFollicle \<Rightarrow> nat list \<Rightarrow> real \<Rightarrow> real option" where
  "fiber_length fc totc follicle [] fiblen = Some fiblen"
| "fiber_length fc totc follicle (k # ks) fiblen =
     (let si = get4 (parent_index follicle) k;
          sw = get4 (parent_weight follicle) k
      in if si = HAIR_STRAND_INDEX_NONE \<or> sw = 0 then Some fiblen
         else
           case fc of
             Alloc cs \<Rightarrow>
               if \<not> sint si < totc \<or> sint si < 0 \<or> int (length cs) \<le> sint si then None
               else fiber_length fc totc follicle ks
                      (fiblen + real_of_int (numverts (cs ! nat (sint si))) * sw)
           | _ \<Rightarrow> None)"

definition fiber_numverts_of :: "HairExportCache \<Rightarrow> HairFollicle \<Rightarrow> int option" where
  "fiber_numverts_of cache follicle =
     map_option (\<lambda>fiblen. c_int_of_float (fiblen + 1 / 2))
       (fiber_length (fiber_curves cache) (cache_totcurves cache) follicle [0..<4] 0)"

definition pattern_follicles :: "HairPattern \<Rightarrow> int \<Rightarrow> HairFollicle list option" where
  "pattern_follicles pat n =
     (if n \<le> 0 then Some []
      else case follicles pat of
             None \<Rightarrow> None
           | Some fs \<Rightarrow> if int (length fs) < n then None else Some (take (nat n) fs))"

definition update_fiber_vertex_counts :: "HairPattern \<Rightarrow> HairExportCache \<Rightarrow> HairExportCache option" where
  "update_fiber_vertex_counts pat cache =
     (if fiber_numverts cache = Dangling then None
      else
        do {
          fs \<leftarrow> pattern_follicles pat (totfibercurves cache);
          counts \<leftarrow> those (map (fiber_numverts_of cache) fs);
          Some (cache\<lparr>fiber_numverts := Alloc counts, totfiberverts := sum_list counts\<rparr>)
        })"

definition update_fiber_root_positions ::
  "'mesh hair_ext \<Rightarrow> 'mesh \<Rightarrow> HairPattern \<Rightarrow> HairExportCache \<Rightarrow> HairExportCache option" where
  "update_fiber_root_positions ext scalp pat cache =
     (if fiber_root_position cache = Dangling then None
      else
        do {
          fs \<leftarrow> pattern_follicles pat (totfibercurves cache);
          Some (cache\<lparr>fiber_root_position :=
                  Alloc (map (\<lambda>f. fst (snd (BKE_mesh_sample_eval ext scalp (follicle_mesh_sample f)))) fs)\<rparr>)
        })"

text \<open>The statement \<open>if (p) { MEM_freeN(p); p = NULL; }\<close> on a buffer pointer.\<close>

definition free_buffer :: "'a buffer \<Rightarrow> 'a buffer option" where
  "free_buffer b = (case b of Dangling \<Rightarrow> None | _ \<Rightarrow> Some Null)"

definition update_without_pattern :: "HairExportCache \<Rightarrow> HairExportCache option" where
  "update_without_pattern cache =
     do {
       nv \<leftarrow> free_buffer (fiber_numverts cache);
       rp \<leftarrow> free_buffer (fiber_root_position cache);
       Some (cache\<lparr>cache_follicles := Null, totfibercurves := 0,
                   fiber_numverts := nv, fiber_root_position := rp\<rparr>)
     }"

text \<open>
  \<open>BKE_hair_export_cache_update\<close> returns the cache it leaves behind and its return
  value. It has no result where its assertion fails, the required updates not being
  closed under the dependencies, or where one of its blocks has none.
\<close>

definition BKE_hair_export_cache_update ::
  "'mesh hair_ext \<Rightarrow> HairExportCache \<Rightarrow> HairSystem \<Rightarrow> nat \<Rightarrow> 'mesh \<Rightarrow> HairExportFlag set
     \<Rightarrow> (HairExportCache \<times> HairExportFlag set) option" where
  "BKE_hair_export_cache_update ext cache hsys subdiv scalp requested_data =
     (let data = hair_export_cache_get_dependencies requested_data;
          uncached = hair_export_cache_get_required_updates cache
      in if uncached \<noteq> hair_export_cache_get_dependencies uncached then None
         else
           let data = data \<inter> uncached
           in do {
                c1 \<leftarrow> (if HAIR_EXPORT_FIBER_CURVES \<in> data
                        then update_fiber_curves hsys subdiv cache else Some cache);
                c2 \<leftarrow> (if HAIR_EXPORT_FIBER_VERTICES \<in> data
                        then update_fiber_vertices ext hsys subdiv scalp c1 else Some c1);
                c5 \<leftarrow> (case pattern hsys of
                          Some pat \<Rightarrow>
                            do {
                              c3 \<leftarrow> Some (if HAIR_EXPORT_FOLLICLE_BINDING \<in> data
                                            then update_follicle_binding pat c2 else c2);
                              c4 \<leftarrow> (if HAIR_EXPORT_FIBER_VERTEX_COUNTS \<in> data
                                      then update_fiber_vertex_counts pat c3 else Some c3);
                              (if HAIR_EXPORT_FIBER_ROOT_POSITIONS \<in> data
                               then update_fiber_root_positions ext scalp pat c4 else Some c4)
                            }
                        | None \<Rightarrow> update_without_pattern c2);
                Some (c5, data)
              })"

text \<open>
  \<open>BKE_hair_export_cache_invalidate\<close>. The branch for the normals frees the array and
  then assigns \<open>fiber_tangents\<close>, so the pointer \<open>fiber_normals\<close> keeps the address of
  the freed array.
\<close>

definition BKE_hair_export_cache_invalidate ::
  "HairExportCache \<Rightarrow> HairExportFlag set \<Rightarrow> HairExportCache option" where
  "BKE_hair_export_cache_invalidate cache invalidate =
     (let data = hair_export_cache_get_dependencies invalidate
      in do {
           c1 \<leftarrow> (if HAIR_EXPORT_FIBER_CURVES \<in> data
                   then map_option (\<lambda>b. cache\<lparr>fiber_curves := b\<rparr>) (free_buffer (fiber_curves cache))
                   else Some cache);
           c2 \<leftarrow> (if HAIR_EXPORT_FIBER_VERTICES \<in> data
                   then do {
                          v \<leftarrow> free_buffer (fiber_verts c1);
                          t \<leftarrow> free_buffer (fiber_tangents c1);
                          (case fiber_normals c1 of
                             Null \<Rightarrow> Some (c1\<lparr>fiber_verts := v, fiber_tangents := t\<rparr>)
                           | Alloc ns \<Rightarrow>
                               Some (c1\<lparr>fiber_verts := v, fiber_tangents := Null, fiber_normals := Dangling\<rparr>)
                           | Dangling \<Rightarrow> None)
                        }
                   else Some c1);
           c3 \<leftarrow> Some (if HAIR_EXPORT_FOLLICLE_BINDING \<in> data then c2\<lparr>cache_follicles := Null\<rparr> else c2);
           c4 \<leftarrow> (if HAIR_EXPORT_FIBER_ROOT_POSITIONS \<in> data
                   then map_option (\<lambda>b. c3\<lparr>fiber_root_position := b\<rparr>) (free_buffer (fiber_root_position c3))
                   else Some c3);
           (if HAIR_EXPORT_FIBER_VERTEX_COUNTS \<in> data
            then map_option (\<lambda>b. c4\<lparr>fiber_numverts := b\<rparr>) (free_buffer (fiber_numverts c4))
            else Some c4)
         })"

definition BKE_hair_export_cache_clear :: "HairExportCache \<Rightarrow> HairExportCache option" where
  "BKE_hair_export_cache_clear cache = BKE_hair_export_cache_invalidate cache HAIR_EXPORT_ALL"

text \<open>
  The dependency rule of the specification: requesting curves requires vertices and
  the follicle binding; requesting the follicle binding requires root positions and
  vertex counts. The closure of a request holds every category that a requested one
  depends on, directly or through other categories.
\<close>

definition depends_on :: "(HairExportFlag \<times> HairExportFlag) set" where
  "depends_on =
     {(HAIR_EXPORT_FIBER_CURVES, HAIR_EXPORT_FIBER_VERTICES),
      (HAIR_EXPORT_FIBER_CURVES, HAIR_EXPORT_FOLLICLE_BINDING),
      (HAIR_EXPORT_FOLLICLE_BINDING, HAIR_EXPORT_FIBER_ROOT_POSITIONS),
      (HAIR_EXPORT_FOLLICLE_BINDING, HAIR_EXPORT_FIBER_VERTEX_COUNTS)}"

definition dependency_closure :: "HairExportFlag set \<Rightarrow> HairExportFlag set" where
  "dependency_closure requested = {c. \<exists>r \<in> requested. (r, c) \<in> depends_on\<^sup>*}"

text \<open>
  Recomputation in the words of the specification. To recompute one category is to
  run its block; to recompute a list of categories is to recompute them one after the
  other, each on the cache the one before has left. The specification names the order
  vertex counts and root positions, then the follicle binding, then the vertices, then
  the curves (\<open>specified_order\<close>); the blocks of the update stand in the order
  \<open>update_order\<close>, the last three inside the test for a pattern.
\<close>

definition recompute ::
  "'mesh hair_ext \<Rightarrow> HairSystem \<Rightarrow> nat \<Rightarrow> 'mesh \<Rightarrow> HairExportFlag \<Rightarrow> HairExportCache
     \<Rightarrow> HairExportCache option" where
  "recompute ext hsys subdiv scalp category cache =
     (case category of
        HAIR_EXPORT_FIBER_CURVES \<Rightarrow> update_fiber_curves hsys subdiv cache
      | HAIR_EXPORT_FIBER_VERTICES \<Rightarrow> update_fiber_vertices ext hsys subdiv scalp cache
      | HAIR_EXPORT_FOLLICLE_BINDING \<Rightarrow>
          map_option (\<lambda>pat. update_follicle_binding pat cache) (pattern hsys)
      | HAIR_EXPORT_FIBER_VERTEX_COUNTS \<Rightarrow>
          Option.bind (pattern hsys) (\<lambda>pat. update_fiber_vertex_counts pat cache)
      | HAIR_EXPORT_FIBER_ROOT_POSITIONS \<Rightarrow>
          Option.bind (pattern hsys) (\<lambda>pat. update_fiber_root_positions ext scalp pat cache))"

fun recompute_in_order ::
  "(HairExportFlag \<Rightarrow> HairExportCache \<Rightarrow> HairExportCache option) \<Rightarrow> HairExportFlag list
     \<Rightarrow> HairExportCache \<Rightarrow> HairExportCache option" where
  "recompute_in_order rc [] cache = Some cache"
| "recompute_in_order rc (category # rest) cache =
     Option.bind (rc category cache) (recompute_in_order rc rest)"

definition specified_order :: "HairExportFlag list" where
  "specified_order =
     [HAIR_EXPORT_FIBER_VERTEX_COUNTS, HAIR_EXPORT_FIBER_ROOT_POSITIONS, HAIR_EXPORT_FOLLICLE_BINDING,
      HAIR_EXPORT_FIBER_VERTICES, HAIR_EXPORT_FIBER_CURVES]"

definition update_order :: "HairSystem \<Rightarrow> HairExportFlag list" where
  "update_order hsys =
     [HAIR_EXPORT_FIBER_CURVES, HAIR_EXPORT_FIBER_VERTICES]
     @ (if pattern hsys = None then []
        else [HAIR_EXPORT_FOLLICLE_BINDING, HAIR_EXPORT_FIBER_VERTEX_COUNTS,
              HAIR_EXPORT_FIBER_ROOT_POSITIONS])"

text \<open>
  The part of the cache that belongs to one category: its buffers and their counts.
  \<open>category_unchanged\<close> compares two caches on it.
\<close>

fun category_unchanged :: "HairExportFlag \<Rightarrow> HairExportCache \<Rightarrow> HairExportCache \<Rightarrow> bool" where
  "category_unchanged HAIR_EXPORT_FIBER_CURVES c c' =
     (fiber_curves c' = fiber_curves c \<and> cache_totcurves c' = cache_totcurves c
      \<and> cache_totverts c' = cache_totverts c)"
| "category_unchanged HAIR_EXPORT_FIBER_VERTICES c c' =
     (fiber_verts c' = fiber_verts c \<and> fiber_tangents c' = fiber_tangents c
      \<and> fiber_normals c' = fiber_normals c)"
| "category_unchanged HAIR_EXPORT_FOLLICLE_BINDING c c' =
     (cache_follicles c' = cache_follicles c \<and> totfibercurves c' = totfibercurves c)"
| "category_unchanged HAIR_EXPORT_FIBER_VERTEX_COUNTS c c' =
     (fiber_numverts c' = fiber_numverts c \<and> totfiberverts c' = totfiberverts c)"
| "category_unchanged HAIR_EXPORT_FIBER_ROOT_POSITIONS c c' =
     (fiber_root_position c' = fiber_root_position c)"

text \<open>
  An input for the instance: one guide curve of two control points rooted at the corner
  \<open>(1,0,0)\<close> of the scalp, and one follicle bound to it with weight one.
\<close>

definition example_bound_follicle :: HairFollicle where
  "example_bound_follicle =
     \<lparr>follicle_mesh_sample = \<lparr>orig_face = 0, orig_weights = (1 / 2, 1 / 2, 0)\<rparr>,
      parent_index = (0, HAIR_STRAND_INDEX_NONE, HAIR_STRAND_INDEX_NONE, HAIR_STRAND_INDEX_NONE),
      parent_weight = (1, 0, 0, 0)\<rparr>"

definition example_cache_hsys :: HairSystem where
  "example_cache_hsys =
     \<lparr>hsys_flag = {},
      pattern = Some \<lparr>follicles = Some [example_bound_follicle], num_follicles = 1\<rparr>,
      curve_data = \<lparr>curves = [example_curve (1, 0, 0)], totcurves = 1,
                    verts = [\<lparr>flag = 0, co = (1, 0, 0)\<rparr>, \<lparr>flag = 0, co = (1, 0, 2)\<rparr>],
                    totverts = 2\<rparr>\<rparr>"

definition example_full_cache :: HairExportCache where
  "example_full_cache =
     \<lparr>fiber_curves = Alloc [(example_curve (1, 0, 0))\<lparr>numverts := 3\<rparr>],
      fiber_verts = Alloc [\<lparr>flag = 0, co = (1, 0, 0)\<rparr>, \<lparr>flag = 0, co = (1, 0, 1)\<rparr>,
                           \<lparr>flag = 0, co = (1, 0, 2)\<rparr>],
      fiber_tangents = Alloc [(0, 0, 1), (0, 0, 2), (0, 0, 1)],
      fiber_normals = Alloc [(1, 0, 0), (1, 0, 0), (1, 0, 0)],
      cache_follicles = Alloc [example_bound_follicle],
      fiber_root_position = Alloc [(1 / 2, 1 / 2, 0)],
      fiber_numverts = Alloc [3],
      cache_totcurves = 1, cache_totverts = 3, totfibercurves = 1, totfiberverts = 3\<rparr>"




section \<open>Point distribution (node\_geo\_point\_distribute.cc)\<close>












section \<open>Geometry sets and components (geometry\_set.cc)\<close>

text \<open>
  Modelled from the spec: the class declarations (BKE\_geometry\_set.hh) and the
  reference-counting pointer (BLI\_user\_counter.hh) are not part of the sources at hand.
  A component and a geometry set carry a user count that starts at one; a counting
  pointer made from a new object takes over that one user, copying a pointer adds a
  user, and a pointer that lets go of its object removes one. Components and geometry
  sets live in a store and are named by their addresses; \<open>new\<close> takes the next unused
  address. The geometry of a component (its mesh or point cloud) is a value, so the copy
  that \<open>copy ()\<close> makes for evaluation is the same value.
\<close>

datatype GeometryComponentType = ComponentMesh | ComponentPointCloud

record 'd GeometryComponent =
  users :: int
  component_type :: GeometryComponentType
  geometry :: "'d option"
  owned :: bool

record GeometrySet =
  set_users :: int
  components :: "GeometryComponentType \<rightharpoonup> nat"

record 'd geometry_store =
  component_at :: "nat \<rightharpoonup> 'd GeometryComponent"
  set_at :: "nat \<rightharpoonup> GeometrySet"
  next_component :: nat
  next_set :: nat

definition component_is_mutable :: "'d GeometryComponent \<Rightarrow> bool" where
  "component_is_mutable c = (users c \<le> 1)"

definition set_is_mutable :: "GeometrySet \<Rightarrow> bool" where
  "set_is_mutable gs = (set_users gs \<le> 1)"

definition component_create :: "GeometryComponentType \<Rightarrow> 'd GeometryComponent" where
  "component_create ty = \<lparr>users = 1, component_type = ty, geometry = None, owned = False\<rparr>"

definition component_copy :: "'d GeometryComponent \<Rightarrow> 'd GeometryComponent" where
  "component_copy c =
     \<lparr>users = 1, component_type = component_type c, geometry = geometry c,
      owned = (geometry c \<noteq> None)\<rparr>"

definition new_component :: "'d geometry_store \<Rightarrow> 'd GeometryComponent \<Rightarrow> nat \<times> 'd geometry_store" where
  "new_component st c =
     (next_component st,
      st\<lparr>component_at := (component_at st)(next_component st \<mapsto> c),
         next_component := Suc (next_component st)\<rparr>)"

definition new_set :: "'d geometry_store \<Rightarrow> GeometrySet \<Rightarrow> nat \<times> 'd geometry_store" where
  "new_set st gs =
     (next_set st, st\<lparr>set_at := (set_at st)(next_set st \<mapsto> gs), next_set := Suc (next_set st)\<rparr>)"

definition component_user_add :: "'d geometry_store \<Rightarrow> nat \<Rightarrow> fault + 'd geometry_store" where
  "component_user_add st a =
     (case component_at st a of
        None \<Rightarrow> Inl InvalidPointer
      | Some c \<Rightarrow> Inr (st\<lparr>component_at := (component_at st)(a \<mapsto> c\<lparr>users := users c + 1\<rparr>)\<rparr>))"

definition component_user_remove :: "'d geometry_store \<Rightarrow> nat \<Rightarrow> fault + 'd geometry_store" where
  "component_user_remove st a =
     (case component_at st a of
        None \<Rightarrow> Inl InvalidPointer
      | Some c \<Rightarrow>
          let new_users = users c - 1
          in if new_users = 0 then Inr (st\<lparr>component_at := (component_at st)(a := None)\<rparr>)
             else Inr (st\<lparr>component_at := (component_at st)(a \<mapsto> c\<lparr>users := new_users\<rparr>)\<rparr>))"

definition set_user_remove :: "'d geometry_store \<Rightarrow> nat \<Rightarrow> fault + 'd geometry_store" where
  "set_user_remove st p =
     (case set_at st p of
        None \<Rightarrow> Inl InvalidPointer
      | Some gs \<Rightarrow>
          let new_users = set_users gs - 1
          in if new_users = 0 then Inr (st\<lparr>set_at := (set_at st)(p := None)\<rparr>)
             else Inr (st\<lparr>set_at := (set_at st)(p \<mapsto> gs\<lparr>set_users := new_users\<rparr>)\<rparr>))"

text \<open>
  \<open>GeometrySet::get_component_for_write\<close> on the geometry set at address \<open>this\<close>: it
  returns the address of the component to write to, with the store it leaves behind.
\<close>

definition get_component_for_write ::
  "'d geometry_store \<Rightarrow> nat \<Rightarrow> GeometryComponentType \<Rightarrow> fault + (nat \<times> 'd geometry_store)" where
  "get_component_for_write st this ty =
     (case set_at st this of
        None \<Rightarrow> Inl InvalidPointer
      | Some gs \<Rightarrow>
          if \<not> set_is_mutable gs then Inl AssertionFailed
          else
            case components gs ty of
              None \<Rightarrow>
                (case new_component st (component_create ty) of
                   (a, st1) \<Rightarrow>
                     Inr (a, st1\<lparr>set_at := (set_at st1)(this \<mapsto> gs\<lparr>components := (components gs)(ty \<mapsto> a)\<rparr>)\<rparr>))
            | Some a \<Rightarrow>
                (case component_at st a of
                   None \<Rightarrow> Inl InvalidPointer
                 | Some c \<Rightarrow>
                     if component_is_mutable c then Inr (a, st)
                     else
                       case new_component st (component_copy c) of
                         (copied_component, st1) \<Rightarrow>
                           (case component_user_remove st1 a of
                              Inl e \<Rightarrow> Inl e
                            | Inr st2 \<Rightarrow>
                                Inr (copied_component,
                                     st2\<lparr>set_at := (set_at st2)
                                            (this \<mapsto> gs\<lparr>components :=
                                               (components gs)(ty \<mapsto> copied_component)\<rparr>)\<rparr>))))"

text \<open>\<open>MeshComponent::replace\<close> and \<open>PointCloudComponent::replace\<close>.\<close>

definition component_replace ::
  "'d geometry_store \<Rightarrow> nat \<Rightarrow> 'd option \<Rightarrow> bool \<Rightarrow> fault + 'd geometry_store" where
  "component_replace st a d transfer_ownership =
     (case component_at st a of
        None \<Rightarrow> Inl InvalidPointer
      | Some c \<Rightarrow>
          if \<not> component_is_mutable c then Inl AssertionFailed
          else Inr (st\<lparr>component_at :=
                         (component_at st)(a \<mapsto> c\<lparr>geometry := d, owned := transfer_ownership\<rparr>)\<rparr>))"

text \<open>\<open>GeometrySet::replace_mesh\<close> and \<open>GeometrySet::replace_pointcloud\<close>.\<close>

definition replace_geometry ::
  "'d geometry_store \<Rightarrow> nat \<Rightarrow> GeometryComponentType \<Rightarrow> 'd option \<Rightarrow> bool \<Rightarrow> fault + 'd geometry_store" where
  "replace_geometry st this ty d transfer_ownership =
     (case get_component_for_write st this ty of
        Inl e \<Rightarrow> Inl e
      | Inr (a, st1) \<Rightarrow> component_replace st1 a d transfer_ownership)"

text \<open>
  \<open>make_geometry_set_mutable\<close> on a pointer that is null or holds the address of a
  geometry set. The copy of a shared geometry set shares the components: every
  component of the set gains a user.
\<close>

fun share_components ::
  "'d geometry_store \<Rightarrow> GeometrySet \<Rightarrow> GeometryComponentType list \<Rightarrow> fault + 'd geometry_store" where
  "share_components st gs [] = Inr st"
| "share_components st gs (ty # tys) =
     (case components gs ty of
        None \<Rightarrow> share_components st gs tys
      | Some a \<Rightarrow>
          (case component_user_add st a of
             Inl e \<Rightarrow> Inl e
           | Inr st1 \<Rightarrow> share_components st1 gs tys))"

definition make_geometry_set_mutable ::
  "'d geometry_store \<Rightarrow> nat option \<Rightarrow> fault + (nat option \<times> 'd geometry_store)" where
  "make_geometry_set_mutable st geometry_set =
     (case geometry_set of
        None \<Rightarrow>
          (case new_set st \<lparr>set_users = 1, components = Map.empty\<rparr> of
             (p, st1) \<Rightarrow> Inr (Some p, st1))
      | Some shared_geometry_set \<Rightarrow>
          (case set_at st shared_geometry_set of
             None \<Rightarrow> Inl InvalidPointer
           | Some gs \<Rightarrow>
               if set_is_mutable gs then Inr (Some shared_geometry_set, st)
               else
                 case share_components st gs [ComponentMesh, ComponentPointCloud] of
                   Inl e \<Rightarrow> Inl e
                 | Inr st1 \<Rightarrow>
                     (case new_set st1 \<lparr>set_users = 1, components = components gs\<rparr> of
                        (new_geometry_set, st2) \<Rightarrow>
                          (case set_user_remove st2 shared_geometry_set of
                             Inl e \<Rightarrow> Inl e
                           | Inr st3 \<Rightarrow> Inr (Some new_geometry_set, st3)))))"

text \<open>
  An instance: a store with one mesh component at address 0 that two geometry sets
  share (two users), the geometry set at address 0 with one user and the one at
  address 1 with two.
\<close>

definition example_store :: "string geometry_store" where
  "example_store =
     \<lparr>component_at = [0 \<mapsto> \<lparr>users = 2, component_type = ComponentMesh,
                             geometry = Some ''scalp'', owned = False\<rparr>],
      set_at = [0 \<mapsto> \<lparr>set_users = 1, components = [ComponentMesh \<mapsto> 0]\<rparr>,
                1 \<mapsto> \<lparr>set_users = 2, components = [ComponentMesh \<mapsto> 0]\<rparr>],
      next_component = 1, next_set = 2\<rparr>"

section \<open>Curve subdivision: what survives the smoothing\<close>


















section \<open>The weight sort\<close>

text \<open>
  Each pass of the selection sort swaps slot \<open>k\<close> with the slot of the largest weight
  among the slots \<open>k..3\<close>; index and weight move together.
\<close>

lemma sort_maxi_expand:
  "sort_maxi (a, b, c, d) 0 = (if d > (if c > (if b > a then b else a) then c else (if b > a then b else a)) then 3
       else if c > (if b > a then b else a) then 2 else if b > a then 1 else 0)"
  "sort_maxi (a, b, c, d) 1 = (if d > (if c > b then c else b) then 3 else if c > b then 2 else 1)"
  "sort_maxi (a, b, c, d) 2 = (if d > c then 3 else 2)"
  by (simp_all add: sort_maxi_def upt_rec)

lemma sort_maxi_0:
  "sort_maxi (a, b, c, d) 0 = 0 \<and> b \<le> a \<and> c \<le> a \<and> d \<le> a
 \<or> sort_maxi (a, b, c, d) 0 = 1 \<and> a \<le> b \<and> c \<le> b \<and> d \<le> b
 \<or> sort_maxi (a, b, c, d) 0 = 2 \<and> a \<le> c \<and> b \<le> c \<and> d \<le> c
 \<or> sort_maxi (a, b, c, d) 0 = 3 \<and> a \<le> d \<and> b \<le> d \<and> c \<le> d"
  unfolding sort_maxi_expand by (cases "b > a"; cases "c > a"; cases "c > b"; cases "d > a"; cases "d > b"; cases "d > c"; simp)

lemma sort_maxi_1:
  "sort_maxi (a, b, c, d) 1 = 1 \<and> c \<le> b \<and> d \<le> b
 \<or> sort_maxi (a, b, c, d) 1 = 2 \<and> b \<le> c \<and> d \<le> c
 \<or> sort_maxi (a, b, c, d) 1 = 3 \<and> b \<le> d \<and> c \<le> d"
  unfolding sort_maxi_expand by (cases "c > b"; cases "d > b"; cases "d > c"; simp)

lemma sort_maxi_2:
  "sort_maxi (a, b, c, d) 2 = 2 \<and> d \<le> c
 \<or> sort_maxi (a, b, c, d) 2 = 3 \<and> c \<le> d"
  unfolding sort_maxi_expand by (cases "d > c"; simp)


lemma slots_eq:
  "parent_index f = (i, j, k, l) \<Longrightarrow> parent_weight f = (a, b, c, d) \<Longrightarrow>
   slots f = [(i, a), (j, b), (k, c), (l, d)]"
  by (simp add: slots_def upt_rec)

lemma follicle_same_fields:
  "parent_index f = ix \<Longrightarrow> parent_weight f = w \<Longrightarrow> f\<lparr>parent_index := ix, parent_weight := w\<rparr> = f"
  by auto

lemma sort_pass_0_ex:
  assumes "parent_index f = (i, j, k, l)" and "parent_weight f = (a, b, c, d)"
  shows "\<exists>a' b' c' d' i' j' k' l'.
           sort_pass 0 f = f\<lparr>parent_index := (i', j', k', l'), parent_weight := (a', b', c', d')\<rparr>
         \<and> b' \<le> a' \<and> c' \<le> a' \<and> d' \<le> a'
         \<and> mset [(i', a'), (j', b'), (k', c'), (l', d')] = mset [(i, a), (j, b), (k, c), (l, d)]"
proof -
  consider (m0) "sort_maxi (a, b, c, d) 0 = 0" "b \<le> a" "c \<le> a" "d \<le> a"
    | (m1) "sort_maxi (a, b, c, d) 0 = 1" "a \<le> b" "c \<le> b" "d \<le> b"
    | (m2) "sort_maxi (a, b, c, d) 0 = 2" "a \<le> c" "b \<le> c" "d \<le> c"
    | (m3) "sort_maxi (a, b, c, d) 0 = 3" "a \<le> d" "b \<le> d" "c \<le> d"
    using sort_maxi_0 [of a b c d] by (elim disjE conjE) blast+
  then show ?thesis
  proof cases
    case m0
    have "sort_pass 0 f = f\<lparr>parent_index := (i, j, k, l), parent_weight := (a, b, c, d)\<rparr>"
      using assms m0 by (simp add: sort_pass_def follicle_same_fields)
    then show ?thesis using m0 by blast
  next
    case m1
    have "sort_pass 0 f = f\<lparr>parent_index := (j, i, k, l), parent_weight := (b, a, c, d)\<rparr>"
      using assms m1 by (simp add: sort_pass_def FIBERSWAP_def swap4_def)
    moreover have "mset [(j, b), (i, a), (k, c), (l, d)] = mset [(i, a), (j, b), (k, c), (l, d)]"
      by simp
    ultimately show ?thesis using m1 by blast
  next
    case m2
    have "sort_pass 0 f = f\<lparr>parent_index := (k, j, i, l), parent_weight := (c, b, a, d)\<rparr>"
      using assms m2 by (simp add: sort_pass_def FIBERSWAP_def swap4_def)
    moreover have "mset [(k, c), (j, b), (i, a), (l, d)] = mset [(i, a), (j, b), (k, c), (l, d)]"
      by simp
    ultimately show ?thesis using m2 by blast
  next
    case m3
    have "sort_pass 0 f = f\<lparr>parent_index := (l, j, k, i), parent_weight := (d, b, c, a)\<rparr>"
      using assms m3 by (simp add: sort_pass_def FIBERSWAP_def swap4_def)
    moreover have "mset [(l, d), (j, b), (k, c), (i, a)] = mset [(i, a), (j, b), (k, c), (l, d)]"
      by simp
    ultimately show ?thesis using m3 by blast
  qed
qed

lemma sort_pass_1_ex:
  assumes "parent_index f = (i, j, k, l)" and "parent_weight f = (a, b, c, d)"
  shows "\<exists>b' c' d' j' k' l'.
           sort_pass 1 f = f\<lparr>parent_index := (i, j', k', l'), parent_weight := (a, b', c', d')\<rparr>
         \<and> c' \<le> b' \<and> d' \<le> b'
         \<and> mset [(j', b'), (k', c'), (l', d')] = mset [(j, b), (k, c), (l, d)]"
proof -
  consider (m1) "sort_maxi (a, b, c, d) 1 = 1" "c \<le> b" "d \<le> b"
    | (m2) "sort_maxi (a, b, c, d) 1 = 2" "b \<le> c" "d \<le> c"
    | (m3) "sort_maxi (a, b, c, d) 1 = 3" "b \<le> d" "c \<le> d"
    using sort_maxi_1 [of a b c d] by (elim disjE conjE) blast+
  then show ?thesis
  proof cases
    case m1
    have "sort_pass 1 f = f\<lparr>parent_index := (i, j, k, l), parent_weight := (a, b, c, d)\<rparr>"
      using assms m1 by (simp add: sort_pass_def follicle_same_fields)
    then show ?thesis using m1 by blast
  next
    case m2
    have "sort_pass 1 f = f\<lparr>parent_index := (i, k, j, l), parent_weight := (a, c, b, d)\<rparr>"
      using assms m2 by (simp add: sort_pass_def FIBERSWAP_def swap4_def)
    moreover have "mset [(k, c), (j, b), (l, d)] = mset [(j, b), (k, c), (l, d)]"
      by simp
    ultimately show ?thesis using m2 by blast
  next
    case m3
    have "sort_pass 1 f = f\<lparr>parent_index := (i, l, k, j), parent_weight := (a, d, c, b)\<rparr>"
      using assms m3 by (simp add: sort_pass_def FIBERSWAP_def swap4_def)
    moreover have "mset [(l, d), (k, c), (j, b)] = mset [(j, b), (k, c), (l, d)]"
      by simp
    ultimately show ?thesis using m3 by blast
  qed
qed

lemma sort_pass_2_ex:
  assumes "parent_index f = (i, j, k, l)" and "parent_weight f = (a, b, c, d)"
  shows "\<exists>c' d' k' l'.
           sort_pass 2 f = f\<lparr>parent_index := (i, j, k', l'), parent_weight := (a, b, c', d')\<rparr>
         \<and> d' \<le> c'
         \<and> mset [(k', c'), (l', d')] = mset [(k, c), (l, d)]"
proof -
  consider (m2) "sort_maxi (a, b, c, d) 2 = 2" "d \<le> c"
    | (m3) "sort_maxi (a, b, c, d) 2 = 3" "c \<le> d"
    using sort_maxi_2 [of a b c d] by (elim disjE conjE) blast+
  then show ?thesis
  proof cases
    case m2
    have "sort_pass 2 f = f\<lparr>parent_index := (i, j, k, l), parent_weight := (a, b, c, d)\<rparr>"
      using assms m2 by (simp add: sort_pass_def follicle_same_fields)
    then show ?thesis using m2 by blast
  next
    case m3
    have "sort_pass 2 f = f\<lparr>parent_index := (i, j, l, k), parent_weight := (a, b, d, c)\<rparr>"
      using assms m3 by (simp add: sort_pass_def FIBERSWAP_def swap4_def)
    moreover have "mset [(l, d), (k, c)] = mset [(k, c), (l, d)]"
      by simp
    ultimately show ?thesis using m3 by blast
  qed
qed

lemma hair_fiber_sort_weights_passes:
  "hair_fiber_sort_weights f = sort_pass 2 (sort_pass 1 (sort_pass 0 f))"
  by (simp add: hair_fiber_sort_weights_def upt_rec numeral_eq_Suc)

lemma hair_fiber_sort_weights_ex:
  "\<exists>ix w. hair_fiber_sort_weights f = f\<lparr>parent_index := ix, parent_weight := w\<rparr>
         \<and> weights_sorted (hair_fiber_sort_weights f)
         \<and> mset (slots (hair_fiber_sort_weights f)) = mset (slots f)"
proof -
  obtain i j k l where ix: "parent_index f = (i, j, k, l)" by (cases "parent_index f") auto
  obtain a b c d where w: "parent_weight f = (a, b, c, d)" by (cases "parent_weight f") auto
  obtain a1 b1 c1 d1 i1 j1 k1 l1 where
    p0: "sort_pass 0 f = f\<lparr>parent_index := (i1, j1, k1, l1), parent_weight := (a1, b1, c1, d1)\<rparr>"
    and m0: "b1 \<le> a1" "c1 \<le> a1" "d1 \<le> a1"
    and s0: "mset [(i1, a1), (j1, b1), (k1, c1), (l1, d1)] = mset [(i, a), (j, b), (k, c), (l, d)]"
    using sort_pass_0_ex [OF ix w] by blast
  define f1 where "f1 = sort_pass 0 f"
  have f1: "parent_index f1 = (i1, j1, k1, l1)" "parent_weight f1 = (a1, b1, c1, d1)"
    unfolding f1_def p0 by simp_all
  obtain b2 c2 d2 j2 k2 l2 where
    p1: "sort_pass 1 f1 = f1\<lparr>parent_index := (i1, j2, k2, l2), parent_weight := (a1, b2, c2, d2)\<rparr>"
    and m1: "c2 \<le> b2" "d2 \<le> b2"
    and s1: "mset [(j2, b2), (k2, c2), (l2, d2)] = mset [(j1, b1), (k1, c1), (l1, d1)]"
    using sort_pass_1_ex [OF f1] by blast
  define f2 where "f2 = sort_pass 1 f1"
  have f2: "parent_index f2 = (i1, j2, k2, l2)" "parent_weight f2 = (a1, b2, c2, d2)"
    unfolding f2_def p1 by simp_all
  obtain c3 d3 k3 l3 where
    p2: "sort_pass 2 f2 = f2\<lparr>parent_index := (i1, j2, k3, l3), parent_weight := (a1, b2, c3, d3)\<rparr>"
    and m2: "d3 \<le> c3"
    and s2: "mset [(k3, c3), (l3, d3)] = mset [(k2, c2), (l2, d2)]"
    using sort_pass_2_ex [OF f2] by blast
  have "hair_fiber_sort_weights f = sort_pass 2 f2"
    by (simp only: hair_fiber_sort_weights_passes f2_def f1_def)
  also have "\<dots> = f2\<lparr>parent_index := (i1, j2, k3, l3), parent_weight := (a1, b2, c3, d3)\<rparr>"
    by (rule p2)
  also have "\<dots> = f1\<lparr>parent_index := (i1, j2, k3, l3), parent_weight := (a1, b2, c3, d3)\<rparr>"
    unfolding f2_def p1 by simp
  also have "\<dots> = f\<lparr>parent_index := (i1, j2, k3, l3), parent_weight := (a1, b2, c3, d3)\<rparr>"
    unfolding f1_def p0 by simp
  finally have res: "hair_fiber_sort_weights f
               = f\<lparr>parent_index := (i1, j2, k3, l3), parent_weight := (a1, b2, c3, d3)\<rparr>" .
  have e1: "set [(j2, b2), (k2, c2), (l2, d2)] = set [(j1, b1), (k1, c1), (l1, d1)]"
    using s1 by (rule mset_eq_setD)
  have "(j2, b2) \<in> set [(j2, b2), (k2, c2), (l2, d2)]" by simp
  then have "(j2, b2) \<in> set [(j1, b1), (k1, c1), (l1, d1)]" by (simp only: e1)
  then have "b2 = b1 \<or> b2 = c1 \<or> b2 = d1" by simp blast
  then have b2: "b2 \<le> a1" using m0 by blast
  have e2: "set [(k3, c3), (l3, d3)] = set [(k2, c2), (l2, d2)]"
    using s2 by (rule mset_eq_setD)
  have "(k3, c3) \<in> set [(k3, c3), (l3, d3)]" by simp
  then have "(k3, c3) \<in> set [(k2, c2), (l2, d2)]" by (simp only: e2)
  then have "c3 = c2 \<or> c3 = d2" by simp blast
  then have c3: "c3 \<le> b2" using m1 by blast
  have sorted: "weights_sorted (hair_fiber_sort_weights f)"
    using b2 c3 m2 by (simp add: res weights_sorted_def)
  have "mset [(i1, a1), (j2, b2), (k3, c3), (l3, d3)]
          = add_mset (i1, a1) (add_mset (j2, b2) (mset [(k2, c2), (l2, d2)]))"
    using s2 by simp
  also have "\<dots> = add_mset (i1, a1) (mset [(j2, b2), (k2, c2), (l2, d2)])" by simp
  also have "\<dots> = mset [(i, a), (j, b), (k, c), (l, d)]" using s1 s0 by simp
  finally have "mset (slots (hair_fiber_sort_weights f)) = mset (slots f)"
    by (simp add: res slots_eq [OF ix w] slots_eq [of _ i1 j2 k3 l3 a1 b2 c3 d3])
  then show ?thesis using res sorted by blast
qed

section \<open>Binding one follicle\<close>

lemma upt_numerals: "[0..<2] = [0, 1]" "[0..<3] = [0, 1, 2]" "[0..<4] = [0, 1, 2, 3]"
  "[1..<4] = [1, 2, 3]" "[2..<4] = [2, 3]" "[3..<4] = [3]" "[1..<2] = [1]" "[0..<1] = [0]"
  "[Suc 0..<2] = [1]" "[Suc 0..<4] = [1, 2, 3]"
  by (simp_all add: upt_rec)

lemma weight_sum_slots: "weight_sum f = sum_mset (image_mset snd (mset (slots f)))"
  by (cases "parent_weight f") (simp add: weight_sum_def slots_def upt_numerals)

lemma sort_weights_sum: "weight_sum (hair_fiber_sort_weights f) = weight_sum f"
  using hair_fiber_sort_weights_ex [of f] by (simp add: weight_sum_slots)

lemma sort_weights_sorted: "weights_sorted (hair_fiber_sort_weights f)"
  using hair_fiber_sort_weights_ex [of f] by blast

lemma sort_weights_slots: "set (slots (hair_fiber_sort_weights f)) = set (slots f)"
  using hair_fiber_sort_weights_ex [of f] by (blast dest: mset_eq_setD)

lemma sort_weights_sample: "follicle_mesh_sample (hair_fiber_sort_weights f) = follicle_mesh_sample f"
proof -
  obtain ix w where "hair_fiber_sort_weights f = f\<lparr>parent_index := ix, parent_weight := w\<rparr>"
    using hair_fiber_sort_weights_ex [of f] by blast
  then show ?thesis by simp
qed

lemma CLAMP_range: "0 \<le> CLAMP a 0 1 \<and> CLAMP a 0 1 \<le> 1"
  by (simp add: CLAMP_def)

lemma clamp2_sum: "CLAMP (1 - t) 0 1 + CLAMP t 0 1 = 1"
  by (simp add: CLAMP_def)

lemma CLAMP_cases:
  "(w < 0 \<and> CLAMP w 0 1 = 0) \<or> (0 \<le> w \<and> w \<le> 1 \<and> CLAMP w 0 1 = w) \<or> (1 < w \<and> CLAMP w 0 1 = 1)"
  by (simp add: CLAMP_def)

lemma clamp3_sum:
  assumes "- e \<le> w0" "- e \<le> w1" "- e \<le> w2" "\<bar>w0 + w1 + w2 - 1\<bar> \<le> e"
  shows "\<bar>CLAMP w0 0 1 + CLAMP w1 0 1 + CLAMP w2 0 1 - 1\<bar> \<le> 3 * e"
  using CLAMP_cases [of w0] CLAMP_cases [of w1] CLAMP_cases [of w2] assms
  by (elim disjE conjE; linarith)

lemma of_nat_not_sentinel:
  assumes "n < 4294967295"
  shows "(of_nat n :: 32 word) \<noteq> HAIR_STRAND_INDEX_NONE"
proof
  assume "(of_nat n :: 32 word) = HAIR_STRAND_INDEX_NONE"
  then have "unat (of_nat n :: 32 word) = unat (0xFFFFFFFF :: 32 word)"
    by (simp add: HAIR_STRAND_INDEX_NONE_def)
  moreover have "unat (of_nat n :: 32 word) = n"
    using assms by (simp add: unat_of_nat)
  ultimately show False using assms by simp
qed

lemma closest_strand_weights_0:
  assumes "take 3 (BLI_kdtree_find_nearest_n ext sl loc 3) = []"
  shows "closest_strand_weights ext f loc sl
           = f\<lparr>parent_index := (HAIR_STRAND_INDEX_NONE, HAIR_STRAND_INDEX_NONE,
                                 HAIR_STRAND_INDEX_NONE, HAIR_STRAND_INDEX_NONE),
                parent_weight := (0, 0, 0, 0)\<rparr>"
  using assms
  by (cases "parent_index f"; cases "parent_weight f")
     (simp add: closest_strand_weights_def upt_rec)

lemma closest_strand_weights_1:
  assumes "take 3 (BLI_kdtree_find_nearest_n ext sl loc 3) = [n0]"
  shows "closest_strand_weights ext f loc sl
           = f\<lparr>parent_index := (of_nat n0, HAIR_STRAND_INDEX_NONE,
                                 HAIR_STRAND_INDEX_NONE, HAIR_STRAND_INDEX_NONE),
                parent_weight := (1, 0, 0, 0)\<rparr>"
  using assms
  by (cases "parent_index f"; cases "parent_weight f")
     (simp add: closest_strand_weights_def upt_rec)

lemma closest_strand_weights_2:
  assumes "take 3 (BLI_kdtree_find_nearest_n ext sl loc 3) = [n0, n1]"
  shows "closest_strand_weights ext f loc sl
           = f\<lparr>parent_index := (of_nat n0, of_nat n1, HAIR_STRAND_INDEX_NONE, HAIR_STRAND_INDEX_NONE),
                parent_weight :=
                  (CLAMP (1 - line_point_factor_v3 ext loc (sl ! n0) (sl ! n1)) 0 1,
                   CLAMP (line_point_factor_v3 ext loc (sl ! n0) (sl ! n1)) 0 1, 0, 0)\<rparr>"
  using assms
  by (cases "parent_index f"; cases "parent_weight f")
     (simp add: closest_strand_weights_def upt_rec Let_def)

lemma closest_strand_weights_3:
  assumes "take 3 (BLI_kdtree_find_nearest_n ext sl loc 3) = [n0, n1, n2]"
    and "interp_weights_tri_v3 ext (sl ! n0) (sl ! n1) (sl ! n2)
           (closest_on_tri_to_point_v3 ext loc (sl ! n0) (sl ! n1) (sl ! n2)) = (w0, w1, w2)"
  shows "closest_strand_weights ext f loc sl
           = f\<lparr>parent_index := (of_nat n0, of_nat n1, of_nat n2, HAIR_STRAND_INDEX_NONE),
                parent_weight := (CLAMP w0 0 1, CLAMP w1 0 1, CLAMP w2 0 1, 0)\<rparr>"
  using assms
  by (cases "parent_index f"; cases "parent_weight f")
     (simp add: closest_strand_weights_def upt_rec Let_def)


lemma nearest_cases:
  fixes sl :: "vec3 list"
  assumes "kdtree_contract ext"
  shows "(sl = [] \<and> take 3 (BLI_kdtree_find_nearest_n ext sl loc 3) = [])
       \<or> (\<exists>n0. take 3 (BLI_kdtree_find_nearest_n ext sl loc 3) = [n0] \<and> n0 < length sl)
       \<or> (\<exists>n0 n1. take 3 (BLI_kdtree_find_nearest_n ext sl loc 3) = [n0, n1]
             \<and> n0 < length sl \<and> n1 < length sl)
       \<or> (\<exists>n0 n1 n2. take 3 (BLI_kdtree_find_nearest_n ext sl loc 3) = [n0, n1, n2]
             \<and> n0 < length sl \<and> n1 < length sl \<and> n2 < length sl)"
proof -
  define ns where "ns = take 3 (BLI_kdtree_find_nearest_n ext sl loc 3)"
  have c: "length (BLI_kdtree_find_nearest_n ext sl loc 3) = min 3 (length sl)"
    "\<forall>i \<in> set (BLI_kdtree_find_nearest_n ext sl loc 3). i < length sl"
    using assms(1) unfolding kdtree_contract_def by blast+
  have len: "length ns = min 3 (length sl)"
    by (simp add: ns_def c(1))
  have mem: "\<forall>i \<in> set ns. i < length sl"
    using c(2) by (auto simp: ns_def dest: in_set_takeD)
  consider "length ns = 0" | "length ns = 1" | "length ns = 2" | "length ns = 3"
    using len by linarith
  then show ?thesis
    unfolding ns_def [symmetric]
  proof cases
    case 1
    then have "length sl = 0" using len by (simp add: min_def split: if_splits)
    with 1 show "(sl = [] \<and> ns = [])
       \<or> (\<exists>n0. ns = [n0] \<and> n0 < length sl)
       \<or> (\<exists>n0 n1. ns = [n0, n1] \<and> n0 < length sl \<and> n1 < length sl)
       \<or> (\<exists>n0 n1 n2. ns = [n0, n1, n2] \<and> n0 < length sl \<and> n1 < length sl \<and> n2 < length sl)"
      by simp
  next
    case 2
    then obtain n0 where "ns = [n0]" by (auto simp: length_Suc_conv)
    then show "(sl = [] \<and> ns = [])
       \<or> (\<exists>n0. ns = [n0] \<and> n0 < length sl)
       \<or> (\<exists>n0 n1. ns = [n0, n1] \<and> n0 < length sl \<and> n1 < length sl)
       \<or> (\<exists>n0 n1 n2. ns = [n0, n1, n2] \<and> n0 < length sl \<and> n1 < length sl \<and> n2 < length sl)"
      using mem by simp
  next
    case 3
    then obtain n0 n1 where "ns = [n0, n1]" by (auto simp: length_Suc_conv numeral_2_eq_2)
    then show "(sl = [] \<and> ns = [])
       \<or> (\<exists>n0. ns = [n0] \<and> n0 < length sl)
       \<or> (\<exists>n0 n1. ns = [n0, n1] \<and> n0 < length sl \<and> n1 < length sl)
       \<or> (\<exists>n0 n1 n2. ns = [n0, n1, n2] \<and> n0 < length sl \<and> n1 < length sl \<and> n2 < length sl)"
      using mem by simp
  next
    case 4
    then obtain n0 n1 n2 where "ns = [n0, n1, n2]" by (auto simp: length_Suc_conv numeral_3_eq_3)
    then show "(sl = [] \<and> ns = [])
       \<or> (\<exists>n0. ns = [n0] \<and> n0 < length sl)
       \<or> (\<exists>n0 n1. ns = [n0, n1] \<and> n0 < length sl \<and> n1 < length sl)
       \<or> (\<exists>n0 n1 n2. ns = [n0, n1, n2] \<and> n0 < length sl \<and> n1 < length sl \<and> n2 < length sl)"
      using mem by simp
  qed
qed

lemma slots_update:
  "slots (f\<lparr>parent_index := (i, j, k, l), parent_weight := (a, b, c, d)\<rparr>)
     = [(i, a), (j, b), (k, c), (l, d)]"
  by (simp add: slots_def upt_rec)

lemma weight_sum_update:
  "weight_sum (f\<lparr>parent_index := ix, parent_weight := (a, b, c, d)\<rparr>) = a + b + c + d"
  by (simp add: weight_sum_def)

lemma closest_strand_weights_sentinel:
  assumes "kdtree_contract ext" and "length sl < 4294967295"
  shows "sentinel_has_zero_weight (closest_strand_weights ext f loc sl)"
proof -
  have ok: "n < length sl \<Longrightarrow> (of_nat n :: 32 word) \<noteq> HAIR_STRAND_INDEX_NONE" for n
    using assms(2) by (intro of_nat_not_sentinel) simp
  show ?thesis
    using nearest_cases [OF assms(1), of sl loc]
  proof (elim disjE exE conjE)
    assume "take 3 (BLI_kdtree_find_nearest_n ext sl loc 3) = []"
    then show ?thesis
      by (simp add: closest_strand_weights_0 sentinel_has_zero_weight_def slots_update)
  next
    fix n0 assume "take 3 (BLI_kdtree_find_nearest_n ext sl loc 3) = [n0]" "n0 < length sl"
    then show ?thesis
      by (simp add: closest_strand_weights_1 sentinel_has_zero_weight_def slots_update ok)
  next
    fix n0 n1
    assume "take 3 (BLI_kdtree_find_nearest_n ext sl loc 3) = [n0, n1]" "n0 < length sl" "n1 < length sl"
    then show ?thesis
      by (simp add: closest_strand_weights_2 sentinel_has_zero_weight_def slots_update ok)
  next
    fix n0 n1 n2
    assume ns: "take 3 (BLI_kdtree_find_nearest_n ext sl loc 3) = [n0, n1, n2]"
      and lt: "n0 < length sl" "n1 < length sl" "n2 < length sl"
    obtain w0 w1 w2 where "interp_weights_tri_v3 ext (sl ! n0) (sl ! n1) (sl ! n2)
           (closest_on_tri_to_point_v3 ext loc (sl ! n0) (sl ! n1) (sl ! n2)) = (w0, w1, w2)"
      by (metis prod_cases3)
    then show ?thesis
      using lt by (simp add: closest_strand_weights_3 [OF ns] sentinel_has_zero_weight_def slots_update ok)
  qed
qed

lemma closest_strand_weights_range:
  assumes "kdtree_contract ext"
  shows "\<forall>(ix, w) \<in> set (slots (closest_strand_weights ext f loc sl)). 0 \<le> w \<and> w \<le> 1"
  using nearest_cases [OF assms(1), of sl loc]
proof (elim disjE exE conjE)
  assume "take 3 (BLI_kdtree_find_nearest_n ext sl loc 3) = []"
  then show ?thesis
    by (simp add: closest_strand_weights_0 slots_update)
next
  fix n0 assume "take 3 (BLI_kdtree_find_nearest_n ext sl loc 3) = [n0]"
  then show ?thesis
    by (simp add: closest_strand_weights_1 slots_update)
next
  fix n0 n1
  assume "take 3 (BLI_kdtree_find_nearest_n ext sl loc 3) = [n0, n1]"
  then show ?thesis
    by (simp add: closest_strand_weights_2 slots_update CLAMP_range)
next
  fix n0 n1 n2
  assume ns: "take 3 (BLI_kdtree_find_nearest_n ext sl loc 3) = [n0, n1, n2]"
  obtain w0 w1 w2 where w: "interp_weights_tri_v3 ext (sl ! n0) (sl ! n1) (sl ! n2)
         (closest_on_tri_to_point_v3 ext loc (sl ! n0) (sl ! n1) (sl ! n2)) = (w0, w1, w2)"
    by (metis prod_cases3)
  show ?thesis
    by (simp add: closest_strand_weights_3 [OF ns w] slots_update CLAMP_range)
qed

lemma closest_strand_weights_sum:
  assumes "kdtree_contract ext" and "sl \<noteq> []"
    and "length sl < 3 \<or> barycentric_within (closest_triangle_weights ext loc sl) e"
  shows "\<bar>weight_sum (closest_strand_weights ext f loc sl) - 1\<bar> \<le> 3 * \<bar>e\<bar>"
  using nearest_cases [OF assms(1), of sl loc]
proof (elim disjE exE conjE)
  assume "sl = []"
  then show ?thesis using assms(2) by simp
next
  fix n0 assume "take 3 (BLI_kdtree_find_nearest_n ext sl loc 3) = [n0]"
  then show ?thesis
    by (simp add: closest_strand_weights_1 slots_update weight_sum_update)
next
  fix n0 n1
  assume "take 3 (BLI_kdtree_find_nearest_n ext sl loc 3) = [n0, n1]"
  then show ?thesis
    by (simp add: closest_strand_weights_2 slots_update weight_sum_update clamp2_sum CLAMP_range)
next
  fix n0 n1 n2
  assume ns: "take 3 (BLI_kdtree_find_nearest_n ext sl loc 3) = [n0, n1, n2]"
  obtain w0 w1 w2 where w: "interp_weights_tri_v3 ext (sl ! n0) (sl ! n1) (sl ! n2)
         (closest_on_tri_to_point_v3 ext loc (sl ! n0) (sl ! n1) (sl ! n2)) = (w0, w1, w2)"
    by (metis prod_cases3)
  have c: "length (BLI_kdtree_find_nearest_n ext sl loc 3) = min 3 (length sl)"
    using assms(1) unfolding kdtree_contract_def by blast
  have "length (take 3 (BLI_kdtree_find_nearest_n ext sl loc 3)) = 3"
    by (simp add: ns)
  then have "3 \<le> length sl"
    using c by simp
  then have "barycentric_within (closest_triangle_weights ext loc sl) e"
    using assms(3) by linarith
  moreover have "closest_triangle_weights ext loc sl = (w0, w1, w2)"
    by (simp add: closest_triangle_weights_def ns w)
  ultimately have b: "- e \<le> w0 \<and> - e \<le> w1 \<and> - e \<le> w2 \<and> \<bar>w0 + w1 + w2 - 1\<bar> \<le> e"
    by (simp add: barycentric_within_def)
  then have "\<bar>CLAMP w0 0 1 + CLAMP w1 0 1 + CLAMP w2 0 1 - 1\<bar> \<le> 3 * e"
    by (intro clamp3_sum) simp_all
  moreover have "e \<le> \<bar>e\<bar>" by simp
  ultimately show ?thesis
    by (simp add: closest_strand_weights_3 [OF ns w] slots_update weight_sum_update)
qed

lemma closest_strand_weights_sample:
  "follicle_mesh_sample (closest_strand_weights ext f loc sl) = follicle_mesh_sample f"
proof -
  have a: "follicle_mesh_sample
             (fold (\<lambda>k f. f\<lparr>parent_index := set4 (parent_index f) k (g k)\<rparr>) ks f)
           = follicle_mesh_sample f" for g :: "nat \<Rightarrow> 32 word" and ks f
    by (induction ks arbitrary: f) simp_all
  have b: "follicle_mesh_sample
             (fold (\<lambda>k f. f\<lparr>parent_index := set4 (parent_index f) k c,
                              parent_weight := set4 (parent_weight f) k 0\<rparr>) ks f)
           = follicle_mesh_sample f" for c ks f
    by (induction ks arbitrary: f) simp_all
  show ?thesis
    by (simp add: closest_strand_weights_def Let_def a b split: prod.splits)
qed

lemma find_closest_strand_props:
  assumes "kdtree_contract ext"
  shows "weights_sorted (hair_fiber_find_closest_strand ext f loc sl)"
    and "length sl < 4294967295 \<Longrightarrow> sentinel_has_zero_weight (hair_fiber_find_closest_strand ext f loc sl)"
proof -
  show "weights_sorted (hair_fiber_find_closest_strand ext f loc sl)"
    by (simp add: hair_fiber_find_closest_strand_def sort_weights_sorted)
  show "sentinel_has_zero_weight (hair_fiber_find_closest_strand ext f loc sl)"
    if "length sl < 4294967295"
    using closest_strand_weights_sentinel [OF assms that, of f loc]
    by (simp add: hair_fiber_find_closest_strand_def sentinel_has_zero_weight_def list_all_iff
        sort_weights_slots)
qed

lemma find_closest_strand_weights:
  assumes "kdtree_contract ext"
  shows "\<forall>(ix, w) \<in> set (slots (hair_fiber_find_closest_strand ext f loc sl)). 0 \<le> w \<and> w \<le> 1"
    and "sl \<noteq> [] \<Longrightarrow> length sl < 3 \<or> barycentric_within (closest_triangle_weights ext loc sl) e \<Longrightarrow>
           \<bar>weight_sum (hair_fiber_find_closest_strand ext f loc sl) - 1\<bar> \<le> 3 * \<bar>e\<bar>"
proof -
  show "\<forall>(ix, w) \<in> set (slots (hair_fiber_find_closest_strand ext f loc sl)). 0 \<le> w \<and> w \<le> 1"
    using closest_strand_weights_range [OF assms, of f loc sl]
    by (simp add: hair_fiber_find_closest_strand_def sort_weights_slots)
  show "\<bar>weight_sum (hair_fiber_find_closest_strand ext f loc sl) - 1\<bar> \<le> 3 * \<bar>e\<bar>"
    if "sl \<noteq> []" "length sl < 3 \<or> barycentric_within (closest_triangle_weights ext loc sl) e"
    using closest_strand_weights_sum [OF assms that, of f]
    by (simp add: hair_fiber_find_closest_strand_def sort_weights_sum)
qed


section \<open>Binding all follicles\<close>

lemma length_map_first: "length (map_first n g xs) = length xs"
  by (simp add: map_first_def)

lemma nth_map_first: "i < n \<Longrightarrow> i < length xs \<Longrightarrow> map_first n g xs ! i = g (xs ! i)"
  by (simp add: map_first_def nth_append)

lemma unbound_clear_binding: "unbound (clear_binding f)"
  by (cases "parent_index f"; cases "parent_weight f")
     (simp add: clear_binding_def unbound_def slots_def upt_rec)

lemma bind_dirty:
  assumes "HAIR_SYSTEM_UPDATE_FOLLICLE_BINDING \<in> hsys_flag hsys" and "pattern hsys = Some pat"
  shows "BKE_hair_bind_follicles ext hsys scalp =
     (if totcurves (curve_data hsys) = 0 then
        (False,
         hsys\<lparr>hsys_flag := hsys_flag hsys - {HAIR_SYSTEM_UPDATE_FOLLICLE_BINDING},
              pattern := Some (pat\<lparr>follicles :=
                map_option (map_first (nat (num_follicles pat)) clear_binding) (follicles pat)\<rparr>)\<rparr>)
      else
        (True,
         hsys\<lparr>hsys_flag := hsys_flag hsys - {HAIR_SYSTEM_UPDATE_FOLLICLE_BINDING},
              pattern := Some (pat\<lparr>follicles :=
                map_option (map_first (nat (num_follicles pat))
                  (bind_follicle ext scalp
                     (map (eval_strandloc ext scalp)
                        (take (nat (totcurves (curve_data hsys))) (curves (curve_data hsys))))))
                  (follicles pat)\<rparr>)\<rparr>))"
  using assms by (simp add: BKE_hair_bind_follicles_def Let_def)

lemma bind_follicle_ok:
  assumes "fst (BKE_mesh_sample_eval ext scalp (follicle_mesh_sample f))"
  shows "\<exists>loc. bind_follicle ext scalp sl f = hair_fiber_find_closest_strand ext f loc sl"
  using assms by (auto simp: bind_follicle_def split: prod.splits)

lemma bind_follicle_failed:
  assumes "\<not> fst (BKE_mesh_sample_eval ext scalp (follicle_mesh_sample f))"
  shows "bind_follicle ext scalp sl f = f"
  using assms by (auto simp: bind_follicle_def split: prod.splits)

lemma example_ext_kdtree: "kdtree_contract example_ext"
  unfolding kdtree_contract_def example_ext_def
  by (auto simp: min_def dest: in_set_takeD)

lemma slots_weights:
  "(\<forall>(ix, w) \<in> set (slots f). P w)
     \<longleftrightarrow> (case parent_weight f of (w0, w1, w2, w3) \<Rightarrow> P w0 \<and> P w1 \<and> P w2 \<and> P w3)"
  by (cases "parent_weight f"; cases "parent_index f") (simp add: slots_def upt_numerals)

lemma verify_weights_iff:
  "hair_fiber_verify_weights f \<longleftrightarrow>
     (\<forall>(ix, w) \<in> set (slots f). 0 \<le> w) \<and> 99 / 100 < weight_sum f \<and> weight_sum f < 101 / 100
     \<and> weights_sorted f"
  unfolding slots_weights
  by (cases "parent_weight f")
     (auto simp: hair_fiber_verify_weights_def weight_sum_def weights_sorted_def Let_def)

lemma bind_follicle_cases:
  "bind_follicle ext scalp sl f =
     (if fst (follicle_location ext scalp f)
      then hair_fiber_find_closest_strand ext f (snd (follicle_location ext scalp f)) sl else f)"
  by (simp add: bind_follicle_def follicle_location_def split: prod.splits)

lemma sorted_weights_fixed:
  assumes "parent_weight f = (a, b, c, d)" and "b \<le> a" and "c \<le> b" and "d \<le> c"
  shows "hair_fiber_sort_weights f = f"
proof -
  have "sort_pass 0 f = f"
    unfolding sort_pass_def assms(1) sort_maxi_expand using assms(2-4) by simp
  moreover have "sort_pass 1 f = f"
    unfolding sort_pass_def assms(1) sort_maxi_expand using assms(2-4) by simp
  moreover have "sort_pass 2 f = f"
    unfolding sort_pass_def assms(1) sort_maxi_expand using assms(2-4) by simp
  ultimately show ?thesis
    by (simp only: hair_fiber_sort_weights_passes)
qed

lemma example_bind_two_strands:
  "hair_fiber_find_closest_strand example_ext (example_follicle 0 (1, 0, 0)) (1, 0, 0)
     [(1, 0, 0), (0, 1, 0)]
   = (example_follicle 0 (1, 0, 0))
       \<lparr>parent_index := (0, 1, HAIR_STRAND_INDEX_NONE, HAIR_STRAND_INDEX_NONE),
        parent_weight := (1, 0, 0, 0)\<rparr>"
proof -
  have ns: "take 3 (BLI_kdtree_find_nearest_n example_ext [(1, 0, 0), (0, 1, 0)] (1, 0, 0) 3) = [0, 1]"
    by (simp add: example_ext_def upt_numerals)
  have t: "line_point_factor_v3 example_ext (1, 0, 0) ([(1, 0, 0), (0, 1, 0)] ! 0) ([(1, 0, 0), (0, 1, 0)] ! 1) = 0"
    by (simp add: example_ext_def example_line_point_factor_def)
  have "closest_strand_weights example_ext (example_follicle 0 (1, 0, 0)) (1, 0, 0) [(1, 0, 0), (0, 1, 0)]
        = (example_follicle 0 (1, 0, 0))
            \<lparr>parent_index := (0, 1, HAIR_STRAND_INDEX_NONE, HAIR_STRAND_INDEX_NONE),
             parent_weight := (1, 0, 0, 0)\<rparr>"
    unfolding closest_strand_weights_2 [OF ns] t by (simp add: CLAMP_def)
  then show ?thesis
    by (simp add: hair_fiber_find_closest_strand_def sorted_weights_fixed [of _ 1 0 0 0])
qed


section \<open>Binding without guide strands\<close>







text \<open>
  \<open>BKE_hair_clear_fiber_curves\<close> clears the update flag, where the setters set it. A
  follicle bound to a guide curve that is removed this way keeps its parent: the next
  bind returns true and changes nothing.
\<close>

lemma bind_after_clear_fiber_curves:
  "totcurves (curve_data (BKE_hair_clear_fiber_curves
      (example_hsys [example_curve (1, 0, 0)]
         [(example_follicle 0 (1, 0, 0))
            \<lparr>parent_index := (0, HAIR_STRAND_INDEX_NONE, HAIR_STRAND_INDEX_NONE, HAIR_STRAND_INDEX_NONE),
             parent_weight := (1, 0, 0, 0)\<rparr>]))) = 0
   \<and> BKE_hair_bind_follicles example_ext
       (BKE_hair_clear_fiber_curves
          (example_hsys [example_curve (1, 0, 0)]
             [(example_follicle 0 (1, 0, 0))
                \<lparr>parent_index := (0, HAIR_STRAND_INDEX_NONE, HAIR_STRAND_INDEX_NONE, HAIR_STRAND_INDEX_NONE),
                 parent_weight := (1, 0, 0, 0)\<rparr>])) ()
     = (True,
        BKE_hair_clear_fiber_curves
          (example_hsys [example_curve (1, 0, 0)]
             [(example_follicle 0 (1, 0, 0))
                \<lparr>parent_index := (0, HAIR_STRAND_INDEX_NONE, HAIR_STRAND_INDEX_NONE, HAIR_STRAND_INDEX_NONE),
                 parent_weight := (1, 0, 0, 0)\<rparr>]))"
  by (simp add: BKE_hair_bind_follicles_def BKE_hair_clear_fiber_curves_def example_hsys_def)

section \<open>Binding with guide strands\<close>

text \<open>
  C6. The claim: after a successful bind with at least one guide strand the four weights
  of every follicle sum to one within 0.02 and do not increase from slot 0 to slot 3.
  The bind skips every follicle whose surface sample fails to evaluate, and with three
  or more strands the weights are the clamped results of the triangle interpolation of
  BLI\_math. What holds, after a bind that finds the update flag set, a pattern and at
  least one guide strand, for each of the first \<open>num_follicles\<close> follicles of the
  pattern: a follicle whose sample fails to evaluate is left as it was; for a follicle
  whose sample evaluates, the weights do not increase from slot 0 to slot 3 and lie in
  \<open>[0, 1]\<close>. The weights of such a follicle sum to one within 0.02 when there are
  fewer than three strands, or when the weights that the triangle interpolation returns
  for the follicle are barycentric within an \<open>e \<le> 1/150\<close>; for an \<open>e \<le> 1/400\<close>
  the weights pass the assertions of \<open>hair_fiber_verify_weights\<close>.
\<close>

theorem bind_weights_sorted_and_normalised:
  assumes "HAIR_SYSTEM_UPDATE_FOLLICLE_BINDING \<in> hsys_flag hsys"
    and "pattern hsys = Some pat"
    and "follicles pat = Some fs"
    and "1 \<le> totcurves (curve_data hsys)"
    and "curves (curve_data hsys) \<noteq> []"
    and "i < nat (num_follicles pat)"
    and "i < length fs"
    and "kdtree_contract ext"
  shows "fst (BKE_hair_bind_follicles ext hsys scalp) = True
       \<and> (\<exists>pat' fs'. pattern (snd (BKE_hair_bind_follicles ext hsys scalp)) = Some pat'
             \<and> follicles pat' = Some fs' \<and> length fs' = length fs
             \<and> (\<not> fst (follicle_location ext scalp (fs ! i)) \<longrightarrow> fs' ! i = fs ! i)
             \<and> (fst (follicle_location ext scalp (fs ! i)) \<longrightarrow>
                  weights_sorted (fs' ! i)
                  \<and> (\<forall>(ix, w) \<in> set (slots (fs' ! i)). 0 \<le> w \<and> w \<le> 1)
                  \<and> ((length (strand_locations ext hsys scalp) < 3
                        \<or> barycentric_within
                            (closest_triangle_weights ext (snd (follicle_location ext scalp (fs ! i)))
                               (strand_locations ext hsys scalp)) e) \<longrightarrow>
                       (e \<le> 1 / 150 \<longrightarrow> \<bar>weight_sum (fs' ! i) - 1\<bar> \<le> 2 / 100)
                       \<and> (e \<le> 1 / 400 \<longrightarrow> hair_fiber_verify_weights (fs' ! i)))))"
proof -
  define sl where "sl = strand_locations ext hsys scalp"
  define fs' where "fs' = map_first (nat (num_follicles pat)) (bind_follicle ext scalp sl) fs"
  define loc where "loc = snd (follicle_location ext scalp (fs ! i))"
  have sl: "sl \<noteq> []"
    using assms(4,5) by (simp add: sl_def strand_locations_def)
  have res: "BKE_hair_bind_follicles ext hsys scalp =
     (True, hsys\<lparr>hsys_flag := hsys_flag hsys - {HAIR_SYSTEM_UPDATE_FOLLICLE_BINDING},
                 pattern := Some (pat\<lparr>follicles := Some fs'\<rparr>)\<rparr>)"
    using assms(1-4) by (simp add: bind_dirty fs'_def sl_def strand_locations_def)
  have fi: "fs' ! i = bind_follicle ext scalp sl (fs ! i)"
    using assms(6,7) by (simp add: fs'_def nth_map_first)
  have skip: "fs' ! i = fs ! i" if "\<not> fst (follicle_location ext scalp (fs ! i))"
    using that by (simp add: fi bind_follicle_cases)
  have bound: "fs' ! i = hair_fiber_find_closest_strand ext (fs ! i) loc sl"
    if "fst (follicle_location ext scalp (fs ! i))"
    using that by (simp add: fi bind_follicle_cases loc_def)
  have sorted: "weights_sorted (fs' ! i)" if "fst (follicle_location ext scalp (fs ! i))"
    unfolding bound [OF that] using find_closest_strand_props(1) [OF assms(8)] .
  have range: "\<forall>(ix, w) \<in> set (slots (fs' ! i)). 0 \<le> w \<and> w \<le> 1"
    if "fst (follicle_location ext scalp (fs ! i))"
    unfolding bound [OF that] using find_closest_strand_weights(1) [OF assms(8)] .
  have sum: "\<bar>weight_sum (fs' ! i) - 1\<bar> \<le> 3 * \<bar>e\<bar>"
    if "fst (follicle_location ext scalp (fs ! i))"
      and "length sl < 3 \<or> barycentric_within (closest_triangle_weights ext loc sl) e"
    unfolding bound [OF that(1)] using find_closest_strand_weights(2) [OF assms(8) sl that(2)] .
  have nonneg: "0 \<le> e \<or> length sl < 3" if "length sl < 3 \<or> barycentric_within (closest_triangle_weights ext loc sl) e"
    using that by (auto simp: barycentric_within_def split: prod.splits)
  have sum1: "\<bar>weight_sum (fs' ! i) - 1\<bar> \<le> 2 / 100"
    if "fst (follicle_location ext scalp (fs ! i))"
      and "length sl < 3 \<or> barycentric_within (closest_triangle_weights ext loc sl) e"
      and "e \<le> 1 / 150"
  proof (cases "length sl < 3")
    case True
    then have "length sl < 3 \<or> barycentric_within (closest_triangle_weights ext loc sl) 0" by simp
    from sum [OF that(1)] find_closest_strand_weights(2) [OF assms(8) sl this, of "fs ! i"]
    show ?thesis by (simp add: bound [OF that(1)])
  next
    case False
    then have "barycentric_within (closest_triangle_weights ext loc sl) e" using that(2) by simp
    then have "0 \<le> e" by (auto simp: barycentric_within_def split: prod.splits)
    then show ?thesis using sum [OF that(1,2)] that(3) by simp
  qed
  have sum2: "\<bar>weight_sum (fs' ! i) - 1\<bar> \<le> 3 / 400"
    if "fst (follicle_location ext scalp (fs ! i))"
      and "length sl < 3 \<or> barycentric_within (closest_triangle_weights ext loc sl) e"
      and "e \<le> 1 / 400"
  proof (cases "length sl < 3")
    case True
    then have "length sl < 3 \<or> barycentric_within (closest_triangle_weights ext loc sl) 0" by simp
    from find_closest_strand_weights(2) [OF assms(8) sl this, of "fs ! i"]
    show ?thesis by (simp add: bound [OF that(1)])
  next
    case False
    then have "barycentric_within (closest_triangle_weights ext loc sl) e" using that(2) by simp
    then have "0 \<le> e" by (auto simp: barycentric_within_def split: prod.splits)
    then show ?thesis using sum [OF that(1,2)] that(3) by simp
  qed
  have verify: "hair_fiber_verify_weights (fs' ! i)"
    if "fst (follicle_location ext scalp (fs ! i))"
      and "length sl < 3 \<or> barycentric_within (closest_triangle_weights ext loc sl) e"
      and "e \<le> 1 / 400"
  proof -
    have "\<forall>(ix, w) \<in> set (slots (fs' ! i)). 0 \<le> w"
      using range [OF that(1)] by auto
    moreover have "99 / 100 < weight_sum (fs' ! i) \<and> weight_sum (fs' ! i) < 101 / 100"
      using sum2 [OF that] by linarith
    ultimately show ?thesis
      using sorted [OF that(1)] by (simp add: verify_weights_iff)
  qed
  have "length fs' = length fs"
    by (simp add: fs'_def length_map_first)
  then show ?thesis
    using skip sorted range sum1 verify
    by (simp add: res sl_def [symmetric] loc_def [symmetric])
qed

theorem bind_weights_sorted_and_normalised_witness:
  "fst (BKE_hair_bind_follicles example_ext
          (example_hsys [example_curve (1, 0, 0), example_curve (0, 1, 0), example_curve (0, 0, 1)]
             [example_follicle 0 (1 / 2, 1 / 4, 1 / 4), example_follicle 1 (1, 0, 0)]) ()) = True
   \<and> (\<exists>pat' fs'. pattern (snd (BKE_hair_bind_follicles example_ext
          (example_hsys [example_curve (1, 0, 0), example_curve (0, 1, 0), example_curve (0, 0, 1)]
             [example_follicle 0 (1 / 2, 1 / 4, 1 / 4), example_follicle 1 (1, 0, 0)]) ())) = Some pat'
        \<and> follicles pat' = Some fs' \<and> length fs' = 2
        \<and> \<bar>weight_sum (fs' ! 0) - 1\<bar> \<le> 2 / 100
        \<and> weights_sorted (fs' ! 0)
        \<and> (\<forall>(ix, w) \<in> set (slots (fs' ! 0)). 0 \<le> w \<and> w \<le> 1)
        \<and> hair_fiber_verify_weights (fs' ! 0)
        \<and> fs' ! 1 = example_follicle 1 (1, 0, 0))"
proof -
  define hs where "hs = example_hsys [example_curve (1, 0, 0), example_curve (0, 1, 0), example_curve (0, 0, 1)]
             [example_follicle 0 (1 / 2, 1 / 4, 1 / 4), example_follicle 1 (1, 0, 0)]"
  define pt where "pt = \<lparr>follicles = Some [example_follicle 0 (1 / 2, 1 / 4, 1 / 4), example_follicle 1 (1, 0, 0)],
                         num_follicles = 2\<rparr>"
  have sl: "strand_locations example_ext hs () = [(1, 0, 0), (0, 1, 0), (0, 0, 1)]"
    by (simp add: hs_def strand_locations_def example_hsys_def eval_strandloc_def example_ext_def
        example_curve_def)
  have l0: "follicle_location example_ext () (example_follicle 0 (1 / 2, 1 / 4, 1 / 4))
              = (True, (1 / 2, 1 / 4, 1 / 4))"
    by (simp add: follicle_location_def example_ext_def example_follicle_def)
  have l1: "fst (follicle_location example_ext () (example_follicle (Suc 0) (1, 0, 0))) = False"
    by (simp add: follicle_location_def example_ext_def example_follicle_def)
  have tw: "closest_triangle_weights example_ext (1 / 2, 1 / 4, 1 / 4) [(1, 0, 0), (0, 1, 0), (0, 0, 1)]
              = (1 / 2, 1 / 4, 1 / 4)"
    by (simp add: closest_triangle_weights_def example_ext_def upt_numerals
        example_interp_weights_def Let_def)
  have bw: "barycentric_within (1 / 2, 1 / 4, 1 / 4) 0"
    by (simp add: barycentric_within_def)
  have h: "HAIR_SYSTEM_UPDATE_FOLLICLE_BINDING \<in> hsys_flag hs" "pattern hs = Some pt"
    "follicles pt = Some [example_follicle 0 (1 / 2, 1 / 4, 1 / 4), example_follicle 1 (1, 0, 0)]"
    "1 \<le> totcurves (curve_data hs)" "curves (curve_data hs) \<noteq> []"
    by (simp_all add: hs_def pt_def example_hsys_def)
  have n: "0 < nat (num_follicles pt)" "1 < nat (num_follicles pt)"
    "0 < length [example_follicle 0 (1 / 2, 1 / 4, 1 / 4), example_follicle 1 (1, 0, 0)]"
    "1 < length [example_follicle 0 (1 / 2, 1 / 4, 1 / 4), example_follicle 1 (1, 0, 0)]"
    by (simp_all add: pt_def)
  define B where "B = BKE_hair_bind_follicles example_ext hs ()"
  have i0: "fst B = True
       \<and> (\<exists>pat' fs'. pattern (snd B) = Some pat' \<and> follicles pat' = Some fs' \<and> length fs' = 2
             \<and> weights_sorted (fs' ! 0)
             \<and> (\<forall>(ix, w) \<in> set (slots (fs' ! 0)). 0 \<le> w \<and> w \<le> 1)
             \<and> \<bar>weight_sum (fs' ! 0) - 1\<bar> \<le> 2 / 100
             \<and> hair_fiber_verify_weights (fs' ! 0))"
    using bind_weights_sorted_and_normalised [OF h n(1) n(3) example_ext_kdtree, of "()" 0]
    unfolding B_def [symmetric] by (simp add: sl l0 tw bw eval_nat_numeral)
  have i1: "\<exists>pat' fs'. pattern (snd B) = Some pat' \<and> follicles pat' = Some fs'
             \<and> fs' ! 1 = example_follicle 1 (1, 0, 0)"
    using bind_weights_sorted_and_normalised [OF h n(2) n(4) example_ext_kdtree, of "()" 0]
    unfolding B_def [symmetric] by (simp add: l1) blast
  from i0 obtain pat' fs' where p: "pattern (snd B) = Some pat'" "follicles pat' = Some fs'"
    "length fs' = 2" "weights_sorted (fs' ! 0)"
    "\<forall>(ix, w) \<in> set (slots (fs' ! 0)). 0 \<le> w \<and> w \<le> 1"
    "\<bar>weight_sum (fs' ! 0) - 1\<bar> \<le> 2 / 100" "hair_fiber_verify_weights (fs' ! 0)"
    by blast
  from i1 obtain pat'' fs'' where q: "pattern (snd B) = Some pat''" "follicles pat'' = Some fs''"
    "fs'' ! 1 = example_follicle 1 (1, 0, 0)"
    by blast
  have "pat'' = pat'" using p(1) q(1) by simp
  then have "fs'' = fs'" using p(2) q(2) by simp
  then have "fs' ! 1 = example_follicle 1 (1, 0, 0)" using q(3) by simp
  then have "\<exists>pat' fs'. pattern (snd B) = Some pat' \<and> follicles pat' = Some fs' \<and> length fs' = 2
        \<and> \<bar>weight_sum (fs' ! 0) - 1\<bar> \<le> 2 / 100
        \<and> weights_sorted (fs' ! 0)
        \<and> (\<forall>(ix, w) \<in> set (slots (fs' ! 0)). 0 \<le> w \<and> w \<le> 1)
        \<and> hair_fiber_verify_weights (fs' ! 0)
        \<and> fs' ! 1 = example_follicle 1 (1, 0, 0)"
    using p by blast
  then show ?thesis
    using i0 unfolding B_def hs_def by blast
qed

text \<open>
  The counterexample: one guide strand and a follicle whose sample names face 1 of a
  scalp with one face. The bind returns true and leaves the follicle as it was
  allocated, all weights zero.
\<close>

theorem bind_skips_failed_sample_counterexample:
  "BKE_hair_bind_follicles example_ext
     (example_hsys [example_curve (1, 0, 0)] [example_follicle 1 (1, 0, 0)]) ()
     = (True, (example_hsys [example_curve (1, 0, 0)] [example_follicle 1 (1, 0, 0)])\<lparr>hsys_flag := {}\<rparr>)
   \<and> \<not> \<bar>weight_sum (example_follicle 1 (1, 0, 0)) - 1\<bar> \<le> 2 / 100"
  by (simp add: BKE_hair_bind_follicles_def example_hsys_def example_follicle_def example_ext_def
      map_first_def bind_follicle_def weight_sum_def Let_def)

text \<open>
  C7. The claim: after bind, a slot holds the sentinel index if and only if its weight
  is zero. The clamp gives weight zero to a strand that was found, so a slot with
  weight zero can hold a strand index. What holds: for every follicle that the bind
  writes (zero guide strands, or a sample that evaluates), a slot that holds the
  sentinel index has weight zero.
\<close>

theorem bind_sentinel_slots_have_zero_weight:
  assumes "HAIR_SYSTEM_UPDATE_FOLLICLE_BINDING \<in> hsys_flag hsys"
    and "pattern hsys = Some pat"
    and "follicles pat = Some fs"
    and "totcurves (curve_data hsys) \<le> 2147483647"
    and "i < nat (num_follicles pat)"
    and "i < length fs"
    and "totcurves (curve_data hsys) = 0
         \<or> fst (BKE_mesh_sample_eval ext scalp (follicle_mesh_sample (fs ! i)))"
    and "kdtree_contract ext"
  shows "\<exists>pat' fs'. pattern (snd (BKE_hair_bind_follicles ext hsys scalp)) = Some pat'
             \<and> follicles pat' = Some fs' \<and> length fs' = length fs
             \<and> sentinel_has_zero_weight (fs' ! i)"
proof (cases "totcurves (curve_data hsys) = 0")
  case True
  have "unbound f \<Longrightarrow> sentinel_has_zero_weight f" for f
    by (auto simp: unbound_def sentinel_has_zero_weight_def list_all_iff)
  then show ?thesis
    using assms(1-3,5,6) True
    by (simp add: bind_dirty length_map_first nth_map_first unbound_clear_binding)
next
  case False
  define sl where "sl = map (eval_strandloc ext scalp)
                          (take (nat (totcurves (curve_data hsys))) (curves (curve_data hsys)))"
  define fs' where "fs' = map_first (nat (num_follicles pat)) (bind_follicle ext scalp sl) fs"
  have sl: "length sl < 4294967295"
    using assms(4) by (simp add: sl_def)
  have res: "BKE_hair_bind_follicles ext hsys scalp =
     (True, hsys\<lparr>hsys_flag := hsys_flag hsys - {HAIR_SYSTEM_UPDATE_FOLLICLE_BINDING},
                 pattern := Some (pat\<lparr>follicles := Some fs'\<rparr>)\<rparr>)"
    using assms(1-3) False by (simp add: bind_dirty fs'_def sl_def)
  obtain loc where "bind_follicle ext scalp sl (fs ! i)
                      = hair_fiber_find_closest_strand ext (fs ! i) loc sl"
    using bind_follicle_ok [of ext scalp "fs ! i" sl] assms(7) False by blast
  then have fi: "fs' ! i = hair_fiber_find_closest_strand ext (fs ! i) loc sl"
    using assms(5,6) by (simp add: fs'_def nth_map_first)
  have "sentinel_has_zero_weight (fs' ! i)"
    unfolding fi using find_closest_strand_props(2) [OF assms(8) sl] .
  moreover have "length fs' = length fs"
    by (simp add: fs'_def length_map_first)
  ultimately show ?thesis
    by (simp add: res)
qed

theorem bind_sentinel_slots_have_zero_weight_witness:
  "\<exists>pat' fs'. pattern (snd (BKE_hair_bind_follicles example_ext
          (example_hsys [example_curve (1, 0, 0), example_curve (0, 1, 0)]
             [example_follicle 0 (1, 0, 0)]) ())) = Some pat'
        \<and> follicles pat' = Some fs' \<and> length fs' = 1
        \<and> sentinel_has_zero_weight (fs' ! 0)"
  using bind_sentinel_slots_have_zero_weight
    [of "example_hsys [example_curve (1, 0, 0), example_curve (0, 1, 0)] [example_follicle 0 (1, 0, 0)]"
        "\<lparr>follicles = Some [example_follicle 0 (1, 0, 0)], num_follicles = 1\<rparr>"
        "[example_follicle 0 (1, 0, 0)]" 0 example_ext "()",
     OF _ _ _ _ _ _ _ example_ext_kdtree]
  by (simp add: example_hsys_def example_follicle_def example_ext_def)

text \<open>
  The counterexample: two guide strands rooted at \<open>(1,0,0)\<close> and \<open>(0,1,0)\<close> and a
  follicle at \<open>(1,0,0)\<close>. The line factor is 0, the weights are 1 and 0, and slot 1
  holds strand 1 with weight zero.
\<close>

theorem bind_zero_weight_without_sentinel_counterexample:
  "BKE_hair_bind_follicles example_ext
     (example_hsys [example_curve (1, 0, 0), example_curve (0, 1, 0)] [example_follicle 0 (1, 0, 0)]) ()
     = (True,
        (example_hsys [example_curve (1, 0, 0), example_curve (0, 1, 0)]
           [(example_follicle 0 (1, 0, 0))
              \<lparr>parent_index := (0, 1, HAIR_STRAND_INDEX_NONE, HAIR_STRAND_INDEX_NONE),
               parent_weight := (1, 0, 0, 0)\<rparr>])\<lparr>hsys_flag := {}\<rparr>)
   \<and> \<not> sentinel_iff_zero_weight
         ((example_follicle 0 (1, 0, 0))
              \<lparr>parent_index := (0, 1, HAIR_STRAND_INDEX_NONE, HAIR_STRAND_INDEX_NONE),
               parent_weight := (1, 0, 0, 0)\<rparr>)"
proof
  have b: "bind_follicle example_ext () [(1, 0, 0), (0, 1, 0)] (example_follicle 0 (1, 0, 0))
      = (example_follicle 0 (1, 0, 0))
              \<lparr>parent_index := (0, 1, HAIR_STRAND_INDEX_NONE, HAIR_STRAND_INDEX_NONE),
               parent_weight := (1, 0, 0, 0)\<rparr>"
    using example_bind_two_strands
    by (simp add: bind_follicle_def example_ext_def example_follicle_def)
  have sl: "eval_strandloc example_ext () (example_curve w) = w" for w
    by (simp add: eval_strandloc_def example_ext_def example_curve_def)
  show "BKE_hair_bind_follicles example_ext
     (example_hsys [example_curve (1, 0, 0), example_curve (0, 1, 0)] [example_follicle 0 (1, 0, 0)]) ()
     = (True,
        (example_hsys [example_curve (1, 0, 0), example_curve (0, 1, 0)]
           [(example_follicle 0 (1, 0, 0))
              \<lparr>parent_index := (0, 1, HAIR_STRAND_INDEX_NONE, HAIR_STRAND_INDEX_NONE),
               parent_weight := (1, 0, 0, 0)\<rparr>])\<lparr>hsys_flag := {}\<rparr>)"
    by (simp add: BKE_hair_bind_follicles_def example_hsys_def Let_def map_first_def sl b)
  show "\<not> sentinel_iff_zero_weight
         ((example_follicle 0 (1, 0, 0))
              \<lparr>parent_index := (0, 1, HAIR_STRAND_INDEX_NONE, HAIR_STRAND_INDEX_NONE),
               parent_weight := (1, 0, 0, 0)\<rparr>)"
    by (simp add: sentinel_iff_zero_weight_def slots_def upt_numerals HAIR_STRAND_INDEX_NONE_def)
qed


section \<open>Export cache: the dependency closure\<close>

lemma depends_on_step:
  "(a, b) \<in> depends_on \<longleftrightarrow>
     (a = HAIR_EXPORT_FIBER_CURVES \<and> (b = HAIR_EXPORT_FIBER_VERTICES \<or> b = HAIR_EXPORT_FOLLICLE_BINDING))
   \<or> (a = HAIR_EXPORT_FOLLICLE_BINDING
        \<and> (b = HAIR_EXPORT_FIBER_ROOT_POSITIONS \<or> b = HAIR_EXPORT_FIBER_VERTEX_COUNTS))"
  by (auto simp: depends_on_def)

lemma get_dependencies_closed:
  assumes "a \<in> hair_export_cache_get_dependencies data" and "(a, b) \<in> depends_on"
  shows "b \<in> hair_export_cache_get_dependencies data"
  using assms
  by (auto simp: hair_export_cache_get_dependencies_def depends_on_step Let_def split: if_splits)

lemma get_dependencies_extensive: "data \<subseteq> hair_export_cache_get_dependencies data"
  by (auto simp: hair_export_cache_get_dependencies_def Let_def)

lemma get_dependencies_reachable:
  assumes "c \<in> hair_export_cache_get_dependencies data"
  shows "\<exists>r \<in> data. (r, c) \<in> depends_on\<^sup>*"
proof -
  have cv: "(HAIR_EXPORT_FIBER_CURVES, HAIR_EXPORT_FIBER_VERTICES) \<in> depends_on\<^sup>*"
    and cf: "(HAIR_EXPORT_FIBER_CURVES, HAIR_EXPORT_FOLLICLE_BINDING) \<in> depends_on\<^sup>*"
    and fr: "(HAIR_EXPORT_FOLLICLE_BINDING, HAIR_EXPORT_FIBER_ROOT_POSITIONS) \<in> depends_on\<^sup>*"
    and fn: "(HAIR_EXPORT_FOLLICLE_BINDING, HAIR_EXPORT_FIBER_VERTEX_COUNTS) \<in> depends_on\<^sup>*"
    by (simp_all add: depends_on_def r_into_rtrancl)
  have cr: "(HAIR_EXPORT_FIBER_CURVES, HAIR_EXPORT_FIBER_ROOT_POSITIONS) \<in> depends_on\<^sup>*"
    using cf fr by (rule rtrancl_trans)
  have cn: "(HAIR_EXPORT_FIBER_CURVES, HAIR_EXPORT_FIBER_VERTEX_COUNTS) \<in> depends_on\<^sup>*"
    using cf fn by (rule rtrancl_trans)
  show ?thesis
    using assms cv cf fr fn cr cn
    by (auto simp: hair_export_cache_get_dependencies_def Let_def split: if_splits)
qed

lemma get_dependencies_closure:
  "hair_export_cache_get_dependencies data = dependency_closure data"
proof
  show "hair_export_cache_get_dependencies data \<subseteq> dependency_closure data"
    using get_dependencies_reachable by (auto simp: dependency_closure_def)
next
  have "b \<in> hair_export_cache_get_dependencies data"
    if "(a, b) \<in> depends_on\<^sup>*" and "a \<in> data" for a b
    using that
  proof (induction rule: rtrancl_induct)
    case base
    then show ?case using get_dependencies_extensive by blast
  next
    case (step y z)
    then show ?case using get_dependencies_closed by blast
  qed
  then show "dependency_closure data \<subseteq> hair_export_cache_get_dependencies data"
    by (auto simp: dependency_closure_def)
qed

section \<open>Export cache: what an update recomputes\<close>

section \<open>Export cache: what an update recomputes\<close>

lemma update_blocks:
  assumes "BKE_hair_export_cache_update ext cache hsys subdiv scalp requested = Some (cache', ret)"
  obtains c1 c2 where
    "ret = hair_export_cache_get_dependencies requested \<inter> hair_export_cache_get_required_updates cache"
    "hair_export_cache_get_required_updates cache
       = hair_export_cache_get_dependencies (hair_export_cache_get_required_updates cache)"
    "if HAIR_EXPORT_FIBER_CURVES \<in> ret then update_fiber_curves hsys subdiv cache = Some c1 else c1 = cache"
    "if HAIR_EXPORT_FIBER_VERTICES \<in> ret
       then update_fiber_vertices ext hsys subdiv scalp c1 = Some c2 else c2 = c1"
    "case pattern hsys of
       None \<Rightarrow> update_without_pattern c2 = Some cache'
     | Some pat \<Rightarrow>
         (\<exists>c4. (if HAIR_EXPORT_FIBER_VERTEX_COUNTS \<in> ret
                  then update_fiber_vertex_counts pat
                         (if HAIR_EXPORT_FOLLICLE_BINDING \<in> ret then update_follicle_binding pat c2 else c2)
                       = Some c4
                  else c4 = (if HAIR_EXPORT_FOLLICLE_BINDING \<in> ret then update_follicle_binding pat c2 else c2))
              \<and> (if HAIR_EXPORT_FIBER_ROOT_POSITIONS \<in> ret
                  then update_fiber_root_positions ext scalp pat c4 = Some cache' else cache' = c4))"
proof -
  define data where "data = hair_export_cache_get_dependencies requested
                             \<inter> hair_export_cache_get_required_updates cache"
  have closed: "hair_export_cache_get_required_updates cache
       = hair_export_cache_get_dependencies (hair_export_cache_get_required_updates cache)"
    using assms unfolding BKE_hair_export_cache_update_def Let_def
    by (auto split: if_splits)
  from assms obtain c1 c2 c5 where
    s1: "(if HAIR_EXPORT_FIBER_CURVES \<in> data
          then update_fiber_curves hsys subdiv cache else Some cache) = Some c1"
    and s2: "(if HAIR_EXPORT_FIBER_VERTICES \<in> data
          then update_fiber_vertices ext hsys subdiv scalp c1 else Some c1) = Some c2"
    and s5: "(case pattern hsys of
                Some pat \<Rightarrow>
                  do {
                    c3 \<leftarrow> Some (if HAIR_EXPORT_FOLLICLE_BINDING \<in> data
                                  then update_follicle_binding pat c2 else c2);
                    c4 \<leftarrow> (if HAIR_EXPORT_FIBER_VERTEX_COUNTS \<in> data
                            then update_fiber_vertex_counts pat c3 else Some c3);
                    (if HAIR_EXPORT_FIBER_ROOT_POSITIONS \<in> data
                     then update_fiber_root_positions ext scalp pat c4 else Some c4)
                  }
              | None \<Rightarrow> update_without_pattern c2) = Some c5"
    and res0: "Some (c5, data) = Some (cache', ret)"
    unfolding BKE_hair_export_cache_update_def Let_def data_def [symmetric] closed [symmetric]
    by (simp add: bind_eq_Some_conv) blast
  from res0 have res: "c5 = cache'" "ret = data"
    by simp_all
  show ?thesis
  proof (rule that [of c1 c2])
    show "ret = hair_export_cache_get_dependencies requested \<inter> hair_export_cache_get_required_updates cache"
      by (simp add: res data_def)
    show "hair_export_cache_get_required_updates cache
       = hair_export_cache_get_dependencies (hair_export_cache_get_required_updates cache)"
      by (rule closed)
    show "if HAIR_EXPORT_FIBER_CURVES \<in> ret then update_fiber_curves hsys subdiv cache = Some c1 else c1 = cache"
      using s1 by (auto simp: res split: if_splits)
    show "if HAIR_EXPORT_FIBER_VERTICES \<in> ret
       then update_fiber_vertices ext hsys subdiv scalp c1 = Some c2 else c2 = c1"
      using s2 by (auto simp: res split: if_splits)
    show "case pattern hsys of
       None \<Rightarrow> update_without_pattern c2 = Some cache'
     | Some pat \<Rightarrow>
         (\<exists>c4. (if HAIR_EXPORT_FIBER_VERTEX_COUNTS \<in> ret
                  then update_fiber_vertex_counts pat
                         (if HAIR_EXPORT_FOLLICLE_BINDING \<in> ret then update_follicle_binding pat c2 else c2)
                       = Some c4
                  else c4 = (if HAIR_EXPORT_FOLLICLE_BINDING \<in> ret then update_follicle_binding pat c2 else c2))
              \<and> (if HAIR_EXPORT_FIBER_ROOT_POSITIONS \<in> ret
                  then update_fiber_root_positions ext scalp pat c4 = Some cache' else cache' = c4))"
    proof (cases "pattern hsys")
      case None
      then show ?thesis using s5 by (simp add: res)
    next
      case (Some pat)
      then show ?thesis
        using s5 unfolding res(1) res(2) [symmetric]
        by (auto simp: bind_eq_Some_conv split: if_splits)
    qed
  qed
qed


lemma update_fiber_curves_shape:
  assumes "update_fiber_curves hsys subdiv cache = Some cache'"
  shows "\<exists>cs totc totv. cache' = cache\<lparr>cache_totcurves := totc, fiber_curves := Alloc cs, cache_totverts := totv\<rparr>"
  using assms by (auto simp: update_fiber_curves_def Let_def split: if_splits prod.splits)

lemma update_fiber_vertices_shape:
  assumes "update_fiber_vertices ext hsys subdiv scalp cache = Some cache'"
  shows "\<exists>vs ts ns. cache' = cache\<lparr>fiber_verts := Alloc vs, fiber_tangents := Alloc ts, fiber_normals := Alloc ns\<rparr>"
  using assms by (auto simp: update_fiber_vertices_def bind_eq_Some_conv split: if_splits)

lemma update_fiber_vertex_counts_shape:
  assumes "update_fiber_vertex_counts pat cache = Some cache'"
  shows "\<exists>counts tot. cache' = cache\<lparr>fiber_numverts := Alloc counts, totfiberverts := tot\<rparr>"
  using assms by (auto simp: update_fiber_vertex_counts_def bind_eq_Some_conv split: if_splits)

lemma update_fiber_root_positions_shape:
  assumes "update_fiber_root_positions ext scalp pat cache = Some cache'"
  shows "\<exists>rs. cache' = cache\<lparr>fiber_root_position := Alloc rs\<rparr>"
  using assms by (auto simp: update_fiber_root_positions_def bind_eq_Some_conv split: if_splits)

lemma update_without_pattern_shape:
  assumes "update_without_pattern cache = Some cache'"
  shows "cache' = cache\<lparr>cache_follicles := Null, totfibercurves := 0,
                        fiber_numverts := Null, fiber_root_position := Null\<rparr>"
  using assms
  by (auto simp: update_without_pattern_def free_buffer_def bind_eq_Some_conv split: buffer.splits)

lemma recompute_in_order_append:
  "recompute_in_order rc (xs @ ys) cache
     = Option.bind (recompute_in_order rc xs cache) (recompute_in_order rc ys)"
proof (induction xs arbitrary: cache)
  case Nil
  then show ?case by simp
next
  case (Cons x xs)
  then show ?case by (cases "rc x cache") simp_all
qed

lemma recompute_in_order_filter_Cons:
  "recompute_in_order rc (filter P (x # xs)) cache
     = Option.bind (if P x then rc x cache else Some cache) (recompute_in_order rc (filter P xs))"
  by simp


lemma category_unchanged_refl: "category_unchanged j c c"
  by (cases j) simp_all

lemma category_unchanged_trans:
  "category_unchanged j a b \<Longrightarrow> category_unchanged j b c \<Longrightarrow> category_unchanged j a c"
  by (cases j) simp_all

lemma category_unchanged_required:
  assumes "category_unchanged j c c'"
  shows "j \<in> hair_export_cache_get_required_updates c' \<longleftrightarrow> j \<in> hair_export_cache_get_required_updates c"
  using assms by (cases j) (simp_all add: hair_export_cache_get_required_updates_def)

lemma recompute_unchanged:
  assumes "recompute ext hsys subdiv scalp k c = Some c'" and "j \<noteq> k"
  shows "category_unchanged j c c'"
proof (cases k)
  case HAIR_EXPORT_FIBER_CURVES
  then obtain cs totc totv where
    "c' = c\<lparr>cache_totcurves := totc, fiber_curves := Alloc cs, cache_totverts := totv\<rparr>"
    using assms(1) update_fiber_curves_shape [of hsys subdiv c c'] by (auto simp: recompute_def)
  then show ?thesis using assms(2) HAIR_EXPORT_FIBER_CURVES by (cases j) simp_all
next
  case HAIR_EXPORT_FIBER_VERTICES
  then obtain vs ts ns where
    "c' = c\<lparr>fiber_verts := Alloc vs, fiber_tangents := Alloc ts, fiber_normals := Alloc ns\<rparr>"
    using assms(1) update_fiber_vertices_shape [of ext hsys subdiv scalp c c'] by (auto simp: recompute_def)
  then show ?thesis using assms(2) HAIR_EXPORT_FIBER_VERTICES by (cases j) simp_all
next
  case HAIR_EXPORT_FOLLICLE_BINDING
  then obtain pat where "c' = update_follicle_binding pat c"
    using assms(1) by (auto simp: recompute_def)
  then show ?thesis
    using assms(2) HAIR_EXPORT_FOLLICLE_BINDING by (cases j) (simp_all add: update_follicle_binding_def)
next
  case HAIR_EXPORT_FIBER_VERTEX_COUNTS
  then obtain pat where "update_fiber_vertex_counts pat c = Some c'"
    using assms(1) by (auto simp: recompute_def bind_eq_Some_conv)
  from update_fiber_vertex_counts_shape [OF this]
  obtain counts tot where "c' = c\<lparr>fiber_numverts := Alloc counts, totfiberverts := tot\<rparr>"
    by blast
  then show ?thesis using assms(2) HAIR_EXPORT_FIBER_VERTEX_COUNTS by (cases j) simp_all
next
  case HAIR_EXPORT_FIBER_ROOT_POSITIONS
  then obtain pat where "update_fiber_root_positions ext scalp pat c = Some c'"
    using assms(1) by (auto simp: recompute_def bind_eq_Some_conv)
  from update_fiber_root_positions_shape [OF this]
  obtain rs where "c' = c\<lparr>fiber_root_position := Alloc rs\<rparr>"
    by blast
  then show ?thesis using assms(2) HAIR_EXPORT_FIBER_ROOT_POSITIONS by (cases j) simp_all
qed

lemma recompute_present:
  assumes "recompute ext hsys subdiv scalp k c = Some c'"
    and "\<forall>pat. pattern hsys = Some pat \<longrightarrow> follicles pat \<noteq> None"
  shows "k \<notin> hair_export_cache_get_required_updates c'"
proof (cases k)
  case HAIR_EXPORT_FIBER_CURVES
  then obtain cs totc totv where
    "c' = c\<lparr>cache_totcurves := totc, fiber_curves := Alloc cs, cache_totverts := totv\<rparr>"
    using assms(1) update_fiber_curves_shape [of hsys subdiv c c'] by (auto simp: recompute_def)
  then show ?thesis
    using HAIR_EXPORT_FIBER_CURVES by (simp add: hair_export_cache_get_required_updates_def)
next
  case HAIR_EXPORT_FIBER_VERTICES
  then obtain vs ts ns where
    "c' = c\<lparr>fiber_verts := Alloc vs, fiber_tangents := Alloc ts, fiber_normals := Alloc ns\<rparr>"
    using assms(1) update_fiber_vertices_shape [of ext hsys subdiv scalp c c'] by (auto simp: recompute_def)
  then show ?thesis
    using HAIR_EXPORT_FIBER_VERTICES by (simp add: hair_export_cache_get_required_updates_def)
next
  case HAIR_EXPORT_FOLLICLE_BINDING
  then obtain pat where p: "pattern hsys = Some pat" "c' = update_follicle_binding pat c"
    using assms(1) by (auto simp: recompute_def)
  then obtain fs where "follicles pat = Some fs" using assms(2) by auto
  then show ?thesis
    using HAIR_EXPORT_FOLLICLE_BINDING p
    by (simp add: hair_export_cache_get_required_updates_def update_follicle_binding_def)
next
  case HAIR_EXPORT_FIBER_VERTEX_COUNTS
  then obtain pat where "update_fiber_vertex_counts pat c = Some c'"
    using assms(1) by (auto simp: recompute_def bind_eq_Some_conv)
  from update_fiber_vertex_counts_shape [OF this]
  obtain counts tot where "c' = c\<lparr>fiber_numverts := Alloc counts, totfiberverts := tot\<rparr>"
    by blast
  then show ?thesis
    using HAIR_EXPORT_FIBER_VERTEX_COUNTS by (simp add: hair_export_cache_get_required_updates_def)
next
  case HAIR_EXPORT_FIBER_ROOT_POSITIONS
  then obtain pat where "update_fiber_root_positions ext scalp pat c = Some c'"
    using assms(1) by (auto simp: recompute_def bind_eq_Some_conv)
  from update_fiber_root_positions_shape [OF this]
  obtain rs where "c' = c\<lparr>fiber_root_position := Alloc rs\<rparr>"
    by blast
  then show ?thesis
    using HAIR_EXPORT_FIBER_ROOT_POSITIONS by (simp add: hair_export_cache_get_required_updates_def)
qed

lemma recompute_in_order_unchanged:
  assumes "recompute_in_order (recompute ext hsys subdiv scalp) ks c = Some c'" and "j \<notin> set ks"
  shows "category_unchanged j c c'"
  using assms
proof (induction ks arbitrary: c)
  case Nil
  then show ?case by (simp add: category_unchanged_refl)
next
  case (Cons k ks)
  then obtain c1 where k: "recompute ext hsys subdiv scalp k c = Some c1"
    and r: "recompute_in_order (recompute ext hsys subdiv scalp) ks c1 = Some c'"
    by (auto simp: bind_eq_Some_conv)
  have "category_unchanged j c c1"
    using recompute_unchanged [OF k] Cons.prems(2) by auto
  moreover have "category_unchanged j c1 c'"
    using Cons.IH [OF r] Cons.prems(2) by simp
  ultimately show ?case by (rule category_unchanged_trans)
qed

lemma recompute_in_order_present:
  assumes "recompute_in_order (recompute ext hsys subdiv scalp) ks c = Some c'"
    and "j \<in> set ks" and "distinct ks"
    and "\<forall>pat. pattern hsys = Some pat \<longrightarrow> follicles pat \<noteq> None"
  shows "j \<notin> hair_export_cache_get_required_updates c'"
  using assms(1-3)
proof (induction ks arbitrary: c)
  case Nil
  then show ?case by simp
next
  case (Cons k ks)
  then obtain c1 where k: "recompute ext hsys subdiv scalp k c = Some c1"
    and r: "recompute_in_order (recompute ext hsys subdiv scalp) ks c1 = Some c'"
    by (auto simp: bind_eq_Some_conv)
  show ?case
  proof (cases "j = k")
    case True
    then have "j \<notin> set ks" using Cons.prems(3) by simp
    then have "category_unchanged j c1 c'"
      using recompute_in_order_unchanged [OF r] by simp
    moreover have "j \<notin> hair_export_cache_get_required_updates c1"
      using recompute_present [OF k assms(4)] True by simp
    ultimately show ?thesis
      by (simp add: category_unchanged_required)
  next
    case False
    then show ?thesis using Cons.IH [OF r] Cons.prems(2,3) by simp
  qed
qed

lemma update_in_order:
  assumes "BKE_hair_export_cache_update ext cache hsys subdiv scalp requested = Some (cache', ret)"
  shows "Option.bind
           (recompute_in_order (recompute ext hsys subdiv scalp)
              (filter (\<lambda>c. c \<in> ret) (update_order hsys)) cache)
           (if pattern hsys = None then update_without_pattern else Some)
         = Some cache'"
proof -
  obtain c1 c2 where
    b1: "if HAIR_EXPORT_FIBER_CURVES \<in> ret then update_fiber_curves hsys subdiv cache = Some c1 else c1 = cache"
    and b2: "if HAIR_EXPORT_FIBER_VERTICES \<in> ret
       then update_fiber_vertices ext hsys subdiv scalp c1 = Some c2 else c2 = c1"
    and b5: "case pattern hsys of
       None \<Rightarrow> update_without_pattern c2 = Some cache'
     | Some pat \<Rightarrow>
         (\<exists>c4. (if HAIR_EXPORT_FIBER_VERTEX_COUNTS \<in> ret
                  then update_fiber_vertex_counts pat
                         (if HAIR_EXPORT_FOLLICLE_BINDING \<in> ret then update_follicle_binding pat c2 else c2)
                       = Some c4
                  else c4 = (if HAIR_EXPORT_FOLLICLE_BINDING \<in> ret then update_follicle_binding pat c2 else c2))
              \<and> (if HAIR_EXPORT_FIBER_ROOT_POSITIONS \<in> ret
                  then update_fiber_root_positions ext scalp pat c4 = Some cache' else cache' = c4))"
    using update_blocks [OF assms] by blast
  let ?rc = "recompute ext hsys subdiv scalp"
  have e1: "(if HAIR_EXPORT_FIBER_CURVES \<in> ret then ?rc HAIR_EXPORT_FIBER_CURVES cache else Some cache) = Some c1"
    using b1 by (simp add: recompute_def)
  have e2: "(if HAIR_EXPORT_FIBER_VERTICES \<in> ret then ?rc HAIR_EXPORT_FIBER_VERTICES c1 else Some c1) = Some c2"
    using b2 by (simp add: recompute_def)
  show ?thesis
  proof (cases "pattern hsys")
    case None
    then have w: "update_without_pattern c2 = Some cache'" using b5 by simp
    have o: "update_order hsys = [HAIR_EXPORT_FIBER_CURVES, HAIR_EXPORT_FIBER_VERTICES]"
      by (simp add: update_order_def None)
    have "recompute_in_order ?rc (filter (\<lambda>c. c \<in> ret) (update_order hsys)) cache = Some c2"
      by (simp only: o recompute_in_order_filter_Cons e1 e2 Option.bind.simps filter.simps(1)
          recompute_in_order.simps(1))
    then show ?thesis using None w by simp
  next
    case (Some pat)
    define c3 where "c3 = (if HAIR_EXPORT_FOLLICLE_BINDING \<in> ret then update_follicle_binding pat c2 else c2)"
    obtain c4 where
      b4: "if HAIR_EXPORT_FIBER_VERTEX_COUNTS \<in> ret
             then update_fiber_vertex_counts pat c3 = Some c4 else c4 = c3"
      and b5': "if HAIR_EXPORT_FIBER_ROOT_POSITIONS \<in> ret
                  then update_fiber_root_positions ext scalp pat c4 = Some cache' else cache' = c4"
      using b5 Some unfolding c3_def by auto
    have e3: "(if HAIR_EXPORT_FOLLICLE_BINDING \<in> ret then ?rc HAIR_EXPORT_FOLLICLE_BINDING c2 else Some c2) = Some c3"
      by (simp add: recompute_def Some c3_def)
    have e4: "(if HAIR_EXPORT_FIBER_VERTEX_COUNTS \<in> ret then ?rc HAIR_EXPORT_FIBER_VERTEX_COUNTS c3 else Some c3) = Some c4"
      using b4 by (simp add: recompute_def Some)
    have e5: "(if HAIR_EXPORT_FIBER_ROOT_POSITIONS \<in> ret then ?rc HAIR_EXPORT_FIBER_ROOT_POSITIONS c4 else Some c4) = Some cache'"
      using b5' by (simp add: recompute_def Some)
    have o: "update_order hsys = [HAIR_EXPORT_FIBER_CURVES, HAIR_EXPORT_FIBER_VERTICES,
        HAIR_EXPORT_FOLLICLE_BINDING, HAIR_EXPORT_FIBER_VERTEX_COUNTS, HAIR_EXPORT_FIBER_ROOT_POSITIONS]"
      by (simp add: update_order_def Some)
    have "recompute_in_order ?rc (filter (\<lambda>c. c \<in> ret) (update_order hsys)) cache = Some cache'"
      by (simp only: o recompute_in_order_filter_Cons e1 e2 e3 e4 e5 Option.bind.simps filter.simps(1)
          recompute_in_order.simps(1))
    then show ?thesis using Some by simp
  qed
qed


lemma set_update_order:
  "set (update_order hsys) =
     (if pattern hsys = None then {HAIR_EXPORT_FIBER_CURVES, HAIR_EXPORT_FIBER_VERTICES} else HAIR_EXPORT_ALL)"
  by (auto simp: update_order_def HAIR_EXPORT_ALL_def)

lemma distinct_update_order: "distinct (update_order hsys)"
  by (simp add: update_order_def)

lemma all_categories: "c \<in> HAIR_EXPORT_ALL"
  by (cases c) (simp_all add: HAIR_EXPORT_ALL_def)

lemma example_update_all:
  "BKE_hair_export_cache_update example_ext BKE_hair_export_cache_new example_cache_hsys 1 ()
     {HAIR_EXPORT_FIBER_CURVES}
   = Some (example_full_cache, HAIR_EXPORT_ALL)"
  by code_simp

lemma example_update_counts:
  "BKE_hair_export_cache_update example_ext (example_full_cache\<lparr>fiber_numverts := Null\<rparr>)
     example_cache_hsys 1 () {HAIR_EXPORT_FIBER_VERTEX_COUNTS}
   = Some (example_full_cache, {HAIR_EXPORT_FIBER_VERTEX_COUNTS})"
  by code_simp

lemma example_update_no_pattern:
  "BKE_hair_export_cache_update example_ext BKE_hair_export_cache_new
     (example_cache_hsys\<lparr>pattern := None\<rparr>) 1 () {HAIR_EXPORT_FIBER_CURVES}
   = Some (example_full_cache\<lparr>cache_follicles := Null, fiber_root_position := Null,
                                fiber_numverts := Null, totfibercurves := 0, totfiberverts := 0\<rparr>,
           HAIR_EXPORT_ALL)"
  by code_simp

text \<open>
  C1. The claim: the update expands the request to its dependency closure, intersects
  the closure with the categories absent from the cache, recomputes exactly that
  intersection in dependency order (vertex counts and root positions, then the follicle
  binding, then the vertices, then the curves), and returns the set it recomputed. The
  blocks of the update stand in the order curves, vertices, follicle binding, vertex
  counts, root positions, and the last three run only when the hair system has a
  pattern. What holds, whenever the update has a defined result: the return value is the
  intersection of the closure of the request with the categories absent from the
  cache; the cache it leaves is the one obtained by recomputing the returned categories
  of \<open>update_order\<close>, in that order, each block on the cache the one before has
  left, followed without a pattern by the clearing of the follicle data; a category of
  \<open>update_order\<close> that is not returned keeps its buffers and counts. With a pattern
  that has a follicle array, the categories absent afterwards are those absent before
  less the returned ones. Without a pattern the three follicle categories are absent
  afterwards, whether returned or not.
\<close>

theorem update_recomputes_closure_of_absent:
  assumes "BKE_hair_export_cache_update ext cache hsys subdiv scalp requested = Some (cache', ret)"
  shows "ret = dependency_closure requested \<inter> hair_export_cache_get_required_updates cache
       \<and> Option.bind
           (recompute_in_order (recompute ext hsys subdiv scalp)
              (filter (\<lambda>c. c \<in> ret) (update_order hsys)) cache)
           (if pattern hsys = None then update_without_pattern else Some)
         = Some cache'
       \<and> (\<forall>c. c \<notin> ret \<and> c \<in> set (update_order hsys) \<longrightarrow> category_unchanged c cache cache')
       \<and> (\<forall>pat. pattern hsys = Some pat \<and> follicles pat \<noteq> None \<longrightarrow>
            hair_export_cache_get_required_updates cache'
              = hair_export_cache_get_required_updates cache - ret)
       \<and> (pattern hsys = None \<longrightarrow>
            cache_follicles cache' = Null \<and> fiber_numverts cache' = Null
            \<and> fiber_root_position cache' = Null \<and> totfibercurves cache' = 0
            \<and> hair_export_cache_get_required_updates cache'
                = (hair_export_cache_get_required_updates cache - ret)
                  \<union> {HAIR_EXPORT_FOLLICLE_BINDING, HAIR_EXPORT_FIBER_VERTEX_COUNTS,
                      HAIR_EXPORT_FIBER_ROOT_POSITIONS})"
proof -
  let ?rc = "recompute ext hsys subdiv scalp"
  let ?ks = "filter (\<lambda>c. c \<in> ret) (update_order hsys)"
  let ?req = hair_export_cache_get_required_updates
  have ret: "ret = dependency_closure requested \<inter> ?req cache"
    using update_blocks [OF assms] by (metis get_dependencies_closure)
  note ord = update_in_order [OF assms]
  obtain c2 where c2: "recompute_in_order ?rc ?ks cache = Some c2"
    and fin: "(if pattern hsys = None then update_without_pattern else Some) c2 = Some cache'"
    using ord by (auto simp: bind_eq_Some_conv)
  have un2: "category_unchanged j cache c2" if "j \<notin> ret" for j
    using recompute_in_order_unchanged [OF c2, of j] that by simp
  have frame: "category_unchanged j cache cache'" if "j \<notin> ret" "j \<in> set (update_order hsys)" for j
  proof (cases "pattern hsys")
    case None
    then have "cache' = c2\<lparr>cache_follicles := Null, totfibercurves := 0,
                            fiber_numverts := Null, fiber_root_position := Null\<rparr>"
      using fin update_without_pattern_shape by simp
    moreover have "j = HAIR_EXPORT_FIBER_CURVES \<or> j = HAIR_EXPORT_FIBER_VERTICES"
      using that(2) None by (simp add: set_update_order)
    ultimately have "category_unchanged j c2 cache'" by auto
    then show ?thesis using un2 [OF that(1)] category_unchanged_trans by blast
  next
    case (Some pat)
    then have "cache' = c2" using fin by simp
    then show ?thesis using un2 [OF that(1)] by simp
  qed
  have present: "?req cache' = ?req cache - ret"
    if "pattern hsys = Some pat" "follicles pat \<noteq> None" for pat
  proof -
    have eq: "cache' = c2" using fin that(1) by simp
    have fol: "\<forall>p. pattern hsys = Some p \<longrightarrow> follicles p \<noteq> None"
      using that by simp
    have "j \<in> ?req cache' \<longleftrightarrow> j \<in> ?req cache \<and> j \<notin> ret" for j
    proof (cases "j \<in> ret")
      case True
      then have "j \<in> set ?ks"
        using that(1) by (simp add: set_update_order all_categories)
      moreover have "distinct ?ks"
        by (simp add: distinct_update_order)
      ultimately have "j \<notin> ?req c2"
        using recompute_in_order_present [OF c2 _ _ fol] by blast
      then show ?thesis using True eq by simp
    next
      case False
      then show ?thesis
        using category_unchanged_required [OF un2 [OF False]] eq by simp
    qed
    then show ?thesis by blast
  qed
  have nopat: "cache_follicles cache' = Null \<and> fiber_numverts cache' = Null
            \<and> fiber_root_position cache' = Null \<and> totfibercurves cache' = 0
            \<and> ?req cache' = (?req cache - ret)
                  \<union> {HAIR_EXPORT_FOLLICLE_BINDING, HAIR_EXPORT_FIBER_VERTEX_COUNTS,
                      HAIR_EXPORT_FIBER_ROOT_POSITIONS}"
    if np: "pattern hsys = None"
  proof -
    have sh: "cache' = c2\<lparr>cache_follicles := Null, totfibercurves := 0,
                            fiber_numverts := Null, fiber_root_position := Null\<rparr>"
      using fin np update_without_pattern_shape by simp
    have ks: "set ?ks = ret \<inter> {HAIR_EXPORT_FIBER_CURVES, HAIR_EXPORT_FIBER_VERTICES}"
      using np by (auto simp: set_update_order)
    have fol: "\<forall>p. pattern hsys = Some p \<longrightarrow> follicles p \<noteq> None"
      using np by simp
    have cv: "j \<in> ?req cache' \<longleftrightarrow> j \<in> ?req cache \<and> j \<notin> ret"
      if j: "j = HAIR_EXPORT_FIBER_CURVES \<or> j = HAIR_EXPORT_FIBER_VERTICES" for j
    proof -
      have same: "j \<in> ?req cache' \<longleftrightarrow> j \<in> ?req c2"
        using j sh by (auto simp: hair_export_cache_get_required_updates_def)
      show ?thesis
      proof (cases "j \<in> ret")
        case True
        then have "j \<in> set ?ks" using j ks by auto
        moreover have "distinct ?ks" by (simp add: distinct_update_order)
        ultimately have "j \<notin> ?req c2"
          using recompute_in_order_present [OF c2 _ _ fol] by blast
        then show ?thesis using True same by simp
      next
        case False
        then show ?thesis
          using category_unchanged_required [OF un2 [OF False]] same by simp
      qed
    qed
    have fl: "j \<in> ?req cache'"
      if "j = HAIR_EXPORT_FOLLICLE_BINDING \<or> j = HAIR_EXPORT_FIBER_VERTEX_COUNTS
          \<or> j = HAIR_EXPORT_FIBER_ROOT_POSITIONS" for j
      using that sh by (auto simp: hair_export_cache_get_required_updates_def)
    have closed: "?req cache = hair_export_cache_get_dependencies (?req cache)"
      using update_blocks [OF assms] by metis
    have "j \<in> ?req cache' \<longleftrightarrow> j \<in> (?req cache - ret)
                  \<union> {HAIR_EXPORT_FOLLICLE_BINDING, HAIR_EXPORT_FIBER_VERTEX_COUNTS,
                      HAIR_EXPORT_FIBER_ROOT_POSITIONS}" for j
      using cv [of j] fl [of j] by (cases j) auto
    then have "?req cache' = (?req cache - ret)
                  \<union> {HAIR_EXPORT_FOLLICLE_BINDING, HAIR_EXPORT_FIBER_VERTEX_COUNTS,
                      HAIR_EXPORT_FIBER_ROOT_POSITIONS}"
      by blast
    then show ?thesis using sh by simp
  qed
  show ?thesis
    using ret ord frame present nopat by blast
qed


theorem update_recomputes_closure_of_absent_witness:
  "HAIR_EXPORT_ALL
     = dependency_closure {HAIR_EXPORT_FIBER_CURVES}
       \<inter> hair_export_cache_get_required_updates BKE_hair_export_cache_new
   \<and> recompute_in_order (recompute example_ext example_cache_hsys 1 ())
       [HAIR_EXPORT_FIBER_CURVES, HAIR_EXPORT_FIBER_VERTICES, HAIR_EXPORT_FOLLICLE_BINDING,
        HAIR_EXPORT_FIBER_VERTEX_COUNTS, HAIR_EXPORT_FIBER_ROOT_POSITIONS]
       BKE_hair_export_cache_new
     = Some example_full_cache
   \<and> hair_export_cache_get_required_updates example_full_cache = {}
   \<and> {HAIR_EXPORT_FIBER_VERTEX_COUNTS}
     = dependency_closure {HAIR_EXPORT_FIBER_VERTEX_COUNTS}
       \<inter> hair_export_cache_get_required_updates (example_full_cache\<lparr>fiber_numverts := Null\<rparr>)
   \<and> category_unchanged HAIR_EXPORT_FIBER_CURVES
       (example_full_cache\<lparr>fiber_numverts := Null\<rparr>) example_full_cache
   \<and> category_unchanged HAIR_EXPORT_FOLLICLE_BINDING
       (example_full_cache\<lparr>fiber_numverts := Null\<rparr>) example_full_cache"
proof -
  have p: "pattern example_cache_hsys = Some \<lparr>follicles = Some [example_bound_follicle], num_follicles = 1\<rparr>"
    by (simp add: example_cache_hsys_def)
  have o: "update_order example_cache_hsys =
       [HAIR_EXPORT_FIBER_CURVES, HAIR_EXPORT_FIBER_VERTICES, HAIR_EXPORT_FOLLICLE_BINDING,
        HAIR_EXPORT_FIBER_VERTEX_COUNTS, HAIR_EXPORT_FIBER_ROOT_POSITIONS]"
    by (simp add: update_order_def p)
  have r: "hair_export_cache_get_required_updates BKE_hair_export_cache_new = HAIR_EXPORT_ALL"
    by (auto simp: hair_export_cache_get_required_updates_def BKE_hair_export_cache_new_def
        HAIR_EXPORT_ALL_def)
  from update_recomputes_closure_of_absent [OF example_update_all]
  have a: "HAIR_EXPORT_ALL
     = dependency_closure {HAIR_EXPORT_FIBER_CURVES}
       \<inter> hair_export_cache_get_required_updates BKE_hair_export_cache_new"
    and b: "recompute_in_order (recompute example_ext example_cache_hsys 1 ())
       [HAIR_EXPORT_FIBER_CURVES, HAIR_EXPORT_FIBER_VERTICES, HAIR_EXPORT_FOLLICLE_BINDING,
        HAIR_EXPORT_FIBER_VERTEX_COUNTS, HAIR_EXPORT_FIBER_ROOT_POSITIONS]
       BKE_hair_export_cache_new
     = Some example_full_cache"
    and c: "hair_export_cache_get_required_updates example_full_cache = {}"
    by (simp_all add: p o r all_categories)
  from update_recomputes_closure_of_absent [OF example_update_counts]
  have d: "{HAIR_EXPORT_FIBER_VERTEX_COUNTS}
     = dependency_closure {HAIR_EXPORT_FIBER_VERTEX_COUNTS}
       \<inter> hair_export_cache_get_required_updates (example_full_cache\<lparr>fiber_numverts := Null\<rparr>)"
    and e: "category_unchanged HAIR_EXPORT_FIBER_CURVES
       (example_full_cache\<lparr>fiber_numverts := Null\<rparr>) example_full_cache"
    and f: "category_unchanged HAIR_EXPORT_FOLLICLE_BINDING
       (example_full_cache\<lparr>fiber_numverts := Null\<rparr>) example_full_cache"
    by (simp_all add: o)
  show ?thesis
    using a b c d e f by blast
qed

text \<open>
  The counterexample: a new cache, a hair system with one guide curve and one bound
  follicle, and a request for the curves. The update returns all five categories and
  leaves the vertex count 3 for the fiber; recomputing the five categories in the
  order of the claim leaves no vertex count, because the block of the vertex counts
  then runs before the follicle binding has set the number of fibers. For the same
  system without a pattern the update returns all five categories and leaves the three
  follicle categories absent.
\<close>

theorem update_order_counterexample:
  "BKE_hair_export_cache_update example_ext BKE_hair_export_cache_new example_cache_hsys 1 ()
     {HAIR_EXPORT_FIBER_CURVES}
   = Some (example_full_cache, HAIR_EXPORT_ALL)
   \<and> fiber_numverts example_full_cache = Alloc [3]
   \<and> map_option fiber_numverts
       (recompute_in_order (recompute example_ext example_cache_hsys 1 ()) specified_order
          BKE_hair_export_cache_new)
     = Some (Alloc [])
   \<and> map_option (\<lambda>(c, ret). (hair_export_cache_get_required_updates c, ret))
       (BKE_hair_export_cache_update example_ext BKE_hair_export_cache_new
          (example_cache_hsys\<lparr>pattern := None\<rparr>) 1 () {HAIR_EXPORT_FIBER_CURVES})
     = Some ({HAIR_EXPORT_FOLLICLE_BINDING, HAIR_EXPORT_FIBER_VERTEX_COUNTS,
              HAIR_EXPORT_FIBER_ROOT_POSITIONS},
             HAIR_EXPORT_ALL)"
  by code_simp

section \<open>Export cache: invalidation\<close>

text \<open>
  C2. The claim: invalidating a set of categories clears every buffer in its dependency
  closure to the absent state, so that each category is fully present or entirely
  absent, and a later update recomputes only what was cleared. The code on a cache
  that holds all five categories, invalidating the vertices: the array of normals is
  freed and its pointer is not cleared, so the vertices are neither present nor absent;
  the category is flagged for recomputation, and the update that recomputes it
  reallocates the dangling pointer and has no defined result.
\<close>

theorem invalidate_vertices_leaves_normals_dangling:
  "map_option (\<lambda>c. (fiber_verts c, fiber_tangents c, fiber_normals c))
     (BKE_hair_export_cache_invalidate example_full_cache {HAIR_EXPORT_FIBER_VERTICES})
     = Some (Null, Null, Dangling)
   \<and> map_option hair_export_cache_get_required_updates
       (BKE_hair_export_cache_invalidate example_full_cache {HAIR_EXPORT_FIBER_VERTICES})
     = Some {HAIR_EXPORT_FIBER_VERTICES}
   \<and> Option.bind (BKE_hair_export_cache_invalidate example_full_cache {HAIR_EXPORT_FIBER_VERTICES})
       (\<lambda>c. BKE_hair_export_cache_update example_ext c example_cache_hsys 1 ()
                {HAIR_EXPORT_FIBER_VERTICES})
     = None"
  by code_simp

section \<open>Export cache: fiber vertex counts\<close>

















section \<open>Point distribution: points per triangle\<close>





section \<open>Geometry sets: copy on write\<close>

lemma get_component_for_write_shared:
  assumes "set_at st this = Some gs" and "set_is_mutable gs"
    and "components gs ty = Some a" and "component_at st a = Some c"
    and "1 < users c" and "a < next_component st"
  shows "get_component_for_write st this ty
           = Inr (next_component st,
                  st\<lparr>component_at := (component_at st)
                         (next_component st \<mapsto> component_copy c, a \<mapsto> c\<lparr>users := users c - 1\<rparr>),
                     next_component := Suc (next_component st),
                     set_at := (set_at st)
                         (this \<mapsto> gs\<lparr>components := (components gs)(ty \<mapsto> next_component st)\<rparr>)\<rparr>)"
  using assms
  by (simp add: get_component_for_write_def component_is_mutable_def new_component_def
      component_user_remove_def Let_def)

lemma share_components_users:
  assumes "\<forall>ty a. components gs ty = Some a \<longrightarrow> component_at st a \<noteq> None"
  shows "\<exists>st1. share_components st gs tys = Inr st1
           \<and> set_at st1 = set_at st \<and> next_set st1 = next_set st
           \<and> next_component st1 = next_component st
           \<and> dom (component_at st1) = dom (component_at st)
           \<and> (\<forall>a c. component_at st a = Some c \<longrightarrow>
                 (\<exists>c1. component_at st1 a = Some c1 \<and> users c \<le> users c1
                    \<and> geometry c1 = geometry c \<and> owned c1 = owned c
                    \<and> component_type c1 = component_type c))"
  using assms
proof (induction tys arbitrary: st)
  case Nil
  then show ?case by simp
next
  case (Cons ty tys)
  show ?case
  proof (cases "components gs ty")
    case None
    then show ?thesis using Cons.IH [OF Cons.prems] by simp
  next
    case (Some a)
    then obtain c where c: "component_at st a = Some c"
      using Cons.prems by fastforce
    define st0 where "st0 = st\<lparr>component_at := (component_at st)(a \<mapsto> c\<lparr>users := users c + 1\<rparr>)\<rparr>"
    have add: "component_user_add st a = Inr st0"
      by (simp add: component_user_add_def c st0_def)
    have pre: "\<forall>ty a. components gs ty = Some a \<longrightarrow> component_at st0 a \<noteq> None"
      using Cons.prems by (simp add: st0_def)
    obtain st1 where st1: "share_components st0 gs tys = Inr st1"
      and keep: "set_at st1 = set_at st0" "next_set st1 = next_set st0"
        "next_component st1 = next_component st0"
        "dom (component_at st1) = dom (component_at st0)"
      and cells: "\<forall>a c. component_at st0 a = Some c \<longrightarrow>
                 (\<exists>c1. component_at st1 a = Some c1 \<and> users c \<le> users c1
                    \<and> geometry c1 = geometry c \<and> owned c1 = owned c
                    \<and> component_type c1 = component_type c)"
      using Cons.IH [OF pre] by blast
    have "\<exists>c1. component_at st1 b = Some c1 \<and> users cb \<le> users c1
                    \<and> geometry c1 = geometry cb \<and> owned c1 = owned cb
                    \<and> component_type c1 = component_type cb"
      if "component_at st b = Some cb" for b cb
    proof (cases "b = a")
      case True
      then have "component_at st0 b = Some (c\<lparr>users := users c + 1\<rparr>)" and "cb = c"
        using that c by (simp_all add: st0_def)
      then show ?thesis using cells by fastforce
    next
      case False
      then have "component_at st0 b = Some cb" using that by (simp add: st0_def)
      then show ?thesis using cells by blast
    qed
    moreover have "dom (component_at st0) = dom (component_at st)"
      using c by (auto simp: st0_def)
    ultimately show ?thesis
      using Some add st1 keep by (simp add: st0_def)
  qed
qed


lemma make_geometry_set_mutable_shared:
  assumes "set_at st p = Some gs" and "1 < set_users gs" and "p < next_set st"
    and "\<forall>ty a. components gs ty = Some a \<longrightarrow> component_at st a \<noteq> None"
  shows "\<exists>p' st'. make_geometry_set_mutable st (Some p) = Inr (Some p', st')
           \<and> p' \<noteq> p
           \<and> (\<exists>gs1. set_at st' p' = Some gs1 \<and> set_is_mutable gs1 \<and> components gs1 = components gs)
           \<and> set_at st' p = Some (gs\<lparr>set_users := set_users gs - 1\<rparr>)
           \<and> (\<forall>a c. component_at st a = Some c \<longrightarrow>
                 (\<exists>c1. component_at st' a = Some c1 \<and> geometry c1 = geometry c \<and> owned c1 = owned c))"
proof -
  obtain st1 where st1: "share_components st gs [ComponentMesh, ComponentPointCloud] = Inr st1"
    and keep: "set_at st1 = set_at st" "next_set st1 = next_set st"
    and cells: "\<forall>a c. component_at st a = Some c \<longrightarrow>
                 (\<exists>c1. component_at st1 a = Some c1 \<and> users c \<le> users c1
                    \<and> geometry c1 = geometry c \<and> owned c1 = owned c
                    \<and> component_type c1 = component_type c)"
    using share_components_users [OF assms(4), of "[ComponentMesh, ComponentPointCloud]"] by blast
  define st' where
    "st' = st1\<lparr>set_at := (set_at st)
                  (next_set st \<mapsto> \<lparr>set_users = 1, components = components gs\<rparr>,
                   p \<mapsto> gs\<lparr>set_users := set_users gs - 1\<rparr>),
               next_set := Suc (next_set st)\<rparr>"
  have res: "make_geometry_set_mutable st (Some p) = Inr (Some (next_set st), st')"
    using assms(1-3) st1 keep
    by (simp add: make_geometry_set_mutable_def set_is_mutable_def new_set_def
        set_user_remove_def Let_def st'_def)
  have "\<exists>c1. component_at st' a = Some c1 \<and> geometry c1 = geometry c \<and> owned c1 = owned c"
    if "component_at st a = Some c" for a c
    using cells that by (fastforce simp: st'_def)
  then show ?thesis
    using res assms(3) by (simp add: st'_def set_is_mutable_def)
qed

text \<open>
  C9. A component and a geometry set are mutable exactly while their user count is at
  most one. A write access to a component with more than one user, through a mutable
  geometry set, gets a copy with one user: the geometry set then holds the copy, the
  write changes the copy, and the original keeps its geometry and its ownership flag
  and loses the one user that the geometry set was. \<open>make_geometry_set_mutable\<close> on a
  geometry set with more than one user yields a new mutable geometry set with the same
  components; the original keeps its components and loses one user, and no component
  changes its geometry.
\<close>

theorem shared_component_is_copied_before_write:
  fixes st :: "'d geometry_store"
  assumes "set_at st this = Some gs" and "set_is_mutable gs"
    and "components gs ty = Some a" and "component_at st a = Some c"
    and "1 < users c" and "a < next_component st"
  shows "(\<forall>c' :: 'd GeometryComponent. component_is_mutable c' \<longleftrightarrow> users c' \<le> 1)
       \<and> (\<forall>gs'. set_is_mutable gs' \<longleftrightarrow> set_users gs' \<le> 1)
       \<and> (\<exists>a' st1 st2.
             get_component_for_write st this ty = Inr (a', st1)
           \<and> a' \<noteq> a
           \<and> component_at st1 a' = Some (component_copy c)
           \<and> component_is_mutable (component_copy c)
           \<and> geometry (component_copy c) = geometry c
           \<and> component_at st1 a = Some (c\<lparr>users := users c - 1\<rparr>)
           \<and> (\<exists>gs'. set_at st1 this = Some gs' \<and> components gs' ty = Some a')
           \<and> replace_geometry st this ty d transfer_ownership = Inr st2
           \<and> component_at st2 a' = Some ((component_copy c)\<lparr>geometry := d, owned := transfer_ownership\<rparr>)
           \<and> component_at st2 a = Some (c\<lparr>users := users c - 1\<rparr>))
       \<and> (\<forall>p gs0. set_at st p = Some gs0 \<and> 1 < set_users gs0 \<and> p < next_set st
             \<and> (\<forall>ty a. components gs0 ty = Some a \<longrightarrow> component_at st a \<noteq> None) \<longrightarrow>
             (\<exists>p' st'. make_geometry_set_mutable st (Some p) = Inr (Some p', st')
                \<and> p' \<noteq> p
                \<and> (\<exists>gs1. set_at st' p' = Some gs1 \<and> set_is_mutable gs1
                      \<and> components gs1 = components gs0)
                \<and> set_at st' p = Some (gs0\<lparr>set_users := set_users gs0 - 1\<rparr>)
                \<and> (\<forall>a c. component_at st a = Some c \<longrightarrow>
                      (\<exists>c1. component_at st' a = Some c1 \<and> geometry c1 = geometry c
                         \<and> owned c1 = owned c))))"
proof -
  define a' where "a' = next_component st"
  define st1 where
    "st1 = st\<lparr>component_at := (component_at st)
                 (a' \<mapsto> component_copy c, a \<mapsto> c\<lparr>users := users c - 1\<rparr>),
              next_component := Suc a',
              set_at := (set_at st)(this \<mapsto> gs\<lparr>components := (components gs)(ty \<mapsto> a')\<rparr>)\<rparr>"
  define st2 where
    "st2 = st1\<lparr>component_at := (component_at st1)
                  (a' \<mapsto> (component_copy c)\<lparr>geometry := d, owned := transfer_ownership\<rparr>)\<rparr>"
  have neq: "a' \<noteq> a" using assms(6) by (simp add: a'_def)
  have w: "get_component_for_write st this ty = Inr (a', st1)"
    using get_component_for_write_shared [OF assms] by (simp add: a'_def st1_def)
  have copy: "component_at st1 a' = Some (component_copy c)"
    using neq by (simp add: st1_def)
  have mut: "component_is_mutable (component_copy c)"
    by (simp add: component_is_mutable_def component_copy_def)
  have orig: "component_at st1 a = Some (c\<lparr>users := users c - 1\<rparr>)"
    by (simp add: st1_def)
  have r: "replace_geometry st this ty d transfer_ownership = Inr st2"
    using copy mut by (simp add: replace_geometry_def w component_replace_def st2_def)
  have part: "\<exists>a' st1 st2.
             get_component_for_write st this ty = Inr (a', st1)
           \<and> a' \<noteq> a
           \<and> component_at st1 a' = Some (component_copy c)
           \<and> component_is_mutable (component_copy c)
           \<and> geometry (component_copy c) = geometry c
           \<and> component_at st1 a = Some (c\<lparr>users := users c - 1\<rparr>)
           \<and> (\<exists>gs'. set_at st1 this = Some gs' \<and> components gs' ty = Some a')
           \<and> replace_geometry st this ty d transfer_ownership = Inr st2
           \<and> component_at st2 a' = Some ((component_copy c)\<lparr>geometry := d, owned := transfer_ownership\<rparr>)
           \<and> component_at st2 a = Some (c\<lparr>users := users c - 1\<rparr>)"
  proof (intro exI conjI)
    show "get_component_for_write st this ty = Inr (a', st1)" by (rule w)
    show "a' \<noteq> a" by (rule neq)
    show "component_at st1 a' = Some (component_copy c)" by (rule copy)
    show "component_is_mutable (component_copy c)" by (rule mut)
    show "geometry (component_copy c) = geometry c" by (simp add: component_copy_def)
    show "component_at st1 a = Some (c\<lparr>users := users c - 1\<rparr>)" by (rule orig)
    show "set_at st1 this = Some (gs\<lparr>components := (components gs)(ty \<mapsto> a')\<rparr>)"
      by (simp add: st1_def)
    show "components (gs\<lparr>components := (components gs)(ty \<mapsto> a')\<rparr>) ty = Some a'" by simp
    show "replace_geometry st this ty d transfer_ownership = Inr st2" by (rule r)
    show "component_at st2 a' = Some ((component_copy c)\<lparr>geometry := d, owned := transfer_ownership\<rparr>)"
      by (simp add: st2_def)
    show "component_at st2 a = Some (c\<lparr>users := users c - 1\<rparr>)"
      using neq orig by (simp add: st2_def)
  qed
  show ?thesis
    using part make_geometry_set_mutable_shared [of st]
    by (simp add: component_is_mutable_def set_is_mutable_def)
qed


theorem shared_component_is_copied_before_write_witness:
  "(\<exists>a' st1 st2.
       get_component_for_write example_store 0 ComponentMesh = Inr (a', st1)
     \<and> a' \<noteq> 0
     \<and> component_at st1 a'
         = Some \<lparr>users = 1, component_type = ComponentMesh, geometry = Some ''scalp'', owned = True\<rparr>
     \<and> component_at st1 0
         = Some \<lparr>users = 1, component_type = ComponentMesh, geometry = Some ''scalp'', owned = False\<rparr>
     \<and> replace_geometry example_store 0 ComponentMesh None False = Inr st2
     \<and> component_at st2 a'
         = Some \<lparr>users = 1, component_type = ComponentMesh, geometry = None, owned = False\<rparr>
     \<and> component_at st2 0
         = Some \<lparr>users = 1, component_type = ComponentMesh, geometry = Some ''scalp'', owned = False\<rparr>)
   \<and> (\<exists>p' st'. make_geometry_set_mutable example_store (Some 1) = Inr (Some p', st')
         \<and> p' \<noteq> 1
         \<and> (\<exists>gs1. set_at st' p' = Some gs1 \<and> set_is_mutable gs1
               \<and> components gs1 = [ComponentMesh \<mapsto> 0])
         \<and> set_at st' 1 = Some \<lparr>set_users = 1, components = [ComponentMesh \<mapsto> 0]\<rparr>)"
proof -
  note t = shared_component_is_copied_before_write
    [of example_store 0 "\<lparr>set_users = 1, components = [ComponentMesh \<mapsto> 0]\<rparr>" ComponentMesh 0
        "\<lparr>users = 2, component_type = ComponentMesh, geometry = Some ''scalp'', owned = False\<rparr>"
        None False]
  have h: "set_at example_store 0 = Some \<lparr>set_users = 1, components = [ComponentMesh \<mapsto> 0]\<rparr>"
    "set_is_mutable \<lparr>set_users = 1, components = [ComponentMesh \<mapsto> 0]\<rparr>"
    "components \<lparr>set_users = 1, components = [ComponentMesh \<mapsto> 0]\<rparr> ComponentMesh = Some 0"
    "component_at example_store 0
       = Some \<lparr>users = 2, component_type = ComponentMesh, geometry = Some ''scalp'', owned = False\<rparr>"
    "1 < users \<lparr>users = 2, component_type = ComponentMesh, geometry = Some ''scalp'', owned = False\<rparr>"
    "0 < next_component example_store"
    by (simp_all add: example_store_def set_is_mutable_def)
  note r = t [OF h]
  have a: "\<exists>a' st1 st2.
       get_component_for_write example_store 0 ComponentMesh = Inr (a', st1)
     \<and> a' \<noteq> 0
     \<and> component_at st1 a'
         = Some \<lparr>users = 1, component_type = ComponentMesh, geometry = Some ''scalp'', owned = True\<rparr>
     \<and> component_at st1 0
         = Some \<lparr>users = 1, component_type = ComponentMesh, geometry = Some ''scalp'', owned = False\<rparr>
     \<and> replace_geometry example_store 0 ComponentMesh None False = Inr st2
     \<and> component_at st2 a'
         = Some \<lparr>users = 1, component_type = ComponentMesh, geometry = None, owned = False\<rparr>
     \<and> component_at st2 0
         = Some \<lparr>users = 1, component_type = ComponentMesh, geometry = Some ''scalp'', owned = False\<rparr>"
    using r [THEN conjunct2, THEN conjunct2, THEN conjunct1]
    by (simp add: component_copy_def) blast
  have "set_at example_store 1 = Some \<lparr>set_users = 2, components = [ComponentMesh \<mapsto> 0]\<rparr>
        \<and> 1 < set_users \<lparr>set_users = 2, components = [ComponentMesh \<mapsto> 0]\<rparr>
        \<and> 1 < next_set example_store
        \<and> (\<forall>ty a. components \<lparr>set_users = 2, components = [ComponentMesh \<mapsto> 0]\<rparr> ty = Some a
              \<longrightarrow> component_at example_store a \<noteq> None)"
    by (simp add: example_store_def)
  then have b: "\<exists>p' st'. make_geometry_set_mutable example_store (Some 1) = Inr (Some p', st')
         \<and> p' \<noteq> 1
         \<and> (\<exists>gs1. set_at st' p' = Some gs1 \<and> set_is_mutable gs1
               \<and> components gs1 = [ComponentMesh \<mapsto> 0])
         \<and> set_at st' 1 = Some \<lparr>set_users = 1, components = [ComponentMesh \<mapsto> 0]\<rparr>"
    using r [THEN conjunct2, THEN conjunct2, THEN conjunct2, rule_format,
             of 1 "\<lparr>set_users = 2, components = [ComponentMesh \<mapsto> 0]\<rparr>"]
    by simp blast
  show ?thesis using a b by blast
qed

section \<open>Setters: the asserted precondition and the array bounds\<close>

text \<open>
  C10. The claim: every index that passes the setters' assertions (\<open>index \<le> totverts\<close>
  for \<open>BKE_hair_set_fiber_vertex\<close>, \<open>index \<le> totcurves\<close> for
  \<open>BKE_hair_set_fiber_curve\<close>) writes inside the owned array of \<open>totverts\<close>
  (\<open>totcurves\<close>) elements. The code at \<open>index = totverts\<close> and
  \<open>index = totcurves\<close>: the assertion passes and the write is one element past the
  end of the array.
\<close>

theorem setters_accept_index_past_the_end:
  "BKE_hair_set_fiber_vertex
     \<lparr>hsys_flag = {}, pattern = None,
      curve_data = \<lparr>curves = [], totcurves = 0,
                    verts = [\<lparr>flag = 0, co = (0, 0, 0)\<rparr>, \<lparr>flag = 0, co = (0, 0, 1)\<rparr>],
                    totverts = 2\<rparr>\<rparr>
     2 0 (0, 0, 2) = Inl OutOfBounds
   \<and> BKE_hair_set_fiber_curve
     \<lparr>hsys_flag = {}, pattern = None,
      curve_data = \<lparr>curves = [\<lparr>mesh_sample = \<lparr>orig_face = 0, orig_weights = (1, 0, 0)\<rparr>,
                               numverts = 2, vertstart = 0, taper_length = 0, taper_thickness = 0\<rparr>],
                    totcurves = 1, verts = [], totverts = 0\<rparr>\<rparr>
     1 \<lparr>orig_face = 0, orig_weights = (0, 1, 0)\<rparr> 2 0 0 = Inl OutOfBounds"
  by (simp add: BKE_hair_set_fiber_vertex_def BKE_hair_set_fiber_curve_def)

end
